theory Spec2Isabelle
  imports Complex_Main "HOL-Library.Sublist" "HOL-Library.AList"
begin

section \<open>Event queue (\<^verbatim>\<open>sersync/core/event_queue.py\<close>)\<close>

text \<open>
  An event is the Python dict that \<^verbatim>\<open>EventQueue.push\<close> receives: the keys
  \<^verbatim>\<open>'type'\<close> and \<^verbatim>\<open>'path'\<close> are required, the key
  \<^verbatim>\<open>'merged_count'\<close> is absent until \<^verbatim>\<open>_merge_events\<close> writes it.
  Event types are the strings of the source.
\<close>

record event =
  etype :: string
  path :: string
  merged_count :: "nat option"

text \<open>
  \<^verbatim>\<open>priority_order\<close> is the dict literal of \<^verbatim>\<open>_merge_events\<close>; the sort key is
  \<^verbatim>\<open>priority_order.get(e['type'], 0)\<close>.
\<close>

definition priority_order :: "string \<Rightarrow> nat option" where
  "priority_order t =
     (if t = ''DELETE_FILE'' then Some 4
      else if t = ''DELETE_FOLDER'' then Some 4
      else if t = ''MOVE'' then Some 3
      else if t = ''CLOSE_WRITE'' then Some 2
      else if t = ''MODIFY'' then Some 2
      else if t = ''CREATE_FILE'' then Some 1
      else if t = ''CREATE_FOLDER'' then Some 1
      else if t = ''ATTRIB'' then Some 0
      else None)"

definition priority :: "event \<Rightarrow> nat" where
  "priority e = (case priority_order (etype e) of Some p \<Rightarrow> p | None \<Rightarrow> 0)"

text \<open>
  Python's \<^verbatim>\<open>sorted(xs, key=k, reverse=True)\<close> is stable: the list is reversed, sorted
  stably in ascending order, and reversed again, so elements with equal keys keep their
  original order.
\<close>

definition sorted_reverse :: "('a \<Rightarrow> nat) \<Rightarrow> 'a list \<Rightarrow> 'a list" where
  "sorted_reverse k xs = rev (sort_key k (rev xs))"

text \<open>
  \<^verbatim>\<open>_merge_events\<close>: the value returned (\<open>None\<close> is the \<^verbatim>\<open>IndexError\<close> of
  \<^verbatim>\<open>events_sorted[0]\<close> on an empty list) and its effect on
  \<^verbatim>\<open>stats['events_merged']\<close>, a Python integer: \<^verbatim>\<open>len(events) - 1\<close> is added before
  the sort, also on the empty list, where it is \<open>-1\<close>.
\<close>

definition merge_events :: "event list \<Rightarrow> event option" where
  "merge_events events =
     (if length events = 1 then Some (events ! 0)
      else (case sorted_reverse priority events of
              [] \<Rightarrow> None
            | merged # _ \<Rightarrow> Some (merged\<lparr>merged_count := Some (length events)\<rparr>)))"

definition merge_events_stat :: "event list \<Rightarrow> int \<Rightarrow> int" where
  "merge_events_stat events n =
     (if length events = 1 then n else n + (int (length events) - 1))"

text \<open>
  The state of the queue: \<^verbatim>\<open>pending_events\<close> is the insertion-ordered dict from path to
  the list of events pushed for it (an association list with distinct keys),
  \<^verbatim>\<open>output_queue\<close> the FIFO (its bound only makes \<^verbatim>\<open>put\<close> wait, it never drops),
  and the three counters of \<^verbatim>\<open>stats\<close> that \<^verbatim>\<open>flush\<close> writes.
\<close>

record event_queue =
  pending_events :: "(string \<times> event list) list"
  output_queue :: "event list"
  events_merged :: int
  events_output :: nat
  events_filtered :: nat

text \<open>
  The set of paths holding a \<^verbatim>\<open>DELETE_FOLDER\<close> event, as both the first loop of
  \<^verbatim>\<open>flush\<close> and the rescan inside \<^verbatim>\<open>_is_filtered_by_parent_delete\<close> build it.
  The Python set is a list here; only membership is ever asked of it.
\<close>

definition directory_deletes_of :: "(string \<times> event list) list \<Rightarrow> string list" where
  "directory_deletes_of pending =
     map fst (filter (\<lambda>(file_path, events).
                list_ex (\<lambda>e. etype e = ''DELETE_FOLDER'') events) pending)"

text \<open>
  \<^verbatim>\<open>_is_filtered_by_parent_delete\<close>. The set passed by the caller is the very object the
  rescan adds to, so the function also returns the set as it leaves it.
\<close>

definition covered_by :: "string \<Rightarrow> string \<Rightarrow> bool" where
  "covered_by file_path delete_path =
     (prefix (delete_path @ ''/'') file_path \<or> file_path = delete_path)"

definition is_filtered_by_parent_delete ::
  "(string \<times> event list) list \<Rightarrow> string \<Rightarrow> event \<Rightarrow> string list option
     \<Rightarrow> bool \<times> string list" where
  "is_filtered_by_parent_delete pending file_path ev directory_deletes =
     (let given = (case directory_deletes of Some d \<Rightarrow> d | None \<Rightarrow> [])
      in if etype ev = ''DELETE_FOLDER'' then (False, given)
         else
           (let deletes_to_check =
                  (if given = [] then directory_deletes_of pending else given)
            in (list_ex (covered_by file_path) deletes_to_check, deletes_to_check)))"

text \<open>
  The second loop of \<^verbatim>\<open>flush\<close>, over the snapshot \<^verbatim>\<open>list(self.pending_events.items())\<close>.
  The annotation written by \<^verbatim>\<open>_merge_events\<close> lands in the dict that is still in the
  pending list of the current path; it leaves \<^verbatim>\<open>'type'\<close> alone, which is all the rescan
  reads, and the entry is deleted at the end of the iteration.
\<close>

fun flush_loop ::
  "(string \<times> event list) list \<Rightarrow> string list \<Rightarrow> event_queue \<Rightarrow> event_queue option" where
  "flush_loop [] dd q = Some q"
| "flush_loop ((file_path, events) # rest) dd q =
     (if events = [] then flush_loop rest dd q
      else (case merge_events events of
              None \<Rightarrow> None
            | Some merged_event \<Rightarrow>
               (let q1 = q\<lparr>events_merged := merge_events_stat events (events_merged q)\<rparr>;
                    r = is_filtered_by_parent_delete (pending_events q1) file_path
                          merged_event (Some dd);
                    q2 = (if fst r
                          then q1\<lparr>events_filtered := events_filtered q1 + 1\<rparr>
                          else q1\<lparr>output_queue := output_queue q1 @ [merged_event],
                                  events_output := events_output q1 + 1\<rparr>);
                    q3 = q2\<lparr>pending_events := AList.delete file_path (pending_events q2)\<rparr>
                in flush_loop rest (snd r) q3)))"

definition flush :: "event_queue \<Rightarrow> event_queue option" where
  "flush q =
     (if pending_events q = [] then Some q
      else flush_loop (pending_events q) (directory_deletes_of (pending_events q)) q)"

text \<open>
  What a flush publishes as the code has it, stated without the loop. A path \<open>d\<close> is a strict ancestor of a
  path \<open>p\<close> when \<open>p\<close> begins with \<open>d\<close> followed by \<^verbatim>\<open>/\<close>. A merged event \<open>m\<close> of the
  path \<open>p\<close> is suppressed by the set \<open>D\<close> when its kind is not \<^verbatim>\<open>DELETE_FOLDER\<close> and \<open>D\<close>
  holds \<open>p\<close> itself or a strict ancestor of it. \<open>published D g\<close> is what the group \<open>g\<close>
  contributes to the output: its merged event unless that is suppressed, nothing when
  the group is empty.
\<close>

definition strict_ancestor :: "string \<Rightarrow> string \<Rightarrow> bool" where
  "strict_ancestor d p = prefix (d @ ''/'') p"

definition suppressed :: "string list \<Rightarrow> string \<Rightarrow> event \<Rightarrow> bool" where
  "suppressed D p m =
     (\<not> etype m = ''DELETE_FOLDER'' \<and> list_ex (\<lambda>d. strict_ancestor d p \<or> p = d) D)"

definition published :: "string list \<Rightarrow> string \<times> event list \<Rightarrow> event list" where
  "published D g =
     (case merge_events (snd g) of
        None \<Rightarrow> []
      | Some m \<Rightarrow> if suppressed D (fst g) m then [] else [m])"

text \<open>
  The suppression the specification words: the kind of the merged event is not
  \<^verbatim>\<open>DELETE_FOLDER\<close> and \<open>D\<close> holds a strict ancestor of its path. \<open>spec_published\<close> is
  what a group contributes to the output under that reading.
\<close>

definition spec_suppressed :: "string list \<Rightarrow> string \<Rightarrow> event \<Rightarrow> bool" where
  "spec_suppressed D p m =
     (\<not> etype m = ''DELETE_FOLDER'' \<and> list_ex (\<lambda>d. strict_ancestor d p) D)"

definition spec_published :: "string list \<Rightarrow> string \<times> event list \<Rightarrow> event list" where
  "spec_published D g =
     (case merge_events (snd g) of
        None \<Rightarrow> []
      | Some m \<Rightarrow> if spec_suppressed D (fst g) m then [] else [m])"

section \<open>Conflict detector (\<^verbatim>\<open>sersync/bidirectional/conflict_detector.py\<close>)\<close>

datatype ConflictType =
    NO_CONFLICT
  | BOTH_MODIFIED
  | LOCAL_DELETED_REMOTE_MODIFIED
  | REMOTE_DELETED_LOCAL_MODIFIED
  | BOTH_CREATED
  | MOVE_CONFLICT

text \<open>
  \<^verbatim>\<open>FileMetadata\<close>. The modification time is a Python float, taken here as a real number:
  the code only subtracts two of them and compares. The attribute \<^verbatim>\<open>path\<close> is
  \<open>meta_path\<close>, the name \<open>path\<close> being the event's.
\<close>

record FileMetadata =
  meta_path :: string
  exists :: bool
  mtime :: "real option"
  size :: "int option"
  content_hash :: "string option"

record ConflictInfo =
  conflict_type :: ConflictType
  local_meta :: FileMetadata
  remote_meta :: FileMetadata
  base_meta :: "FileMetadata option"
  details :: string

record ConflictDetector =
  time_tolerance :: int
  enable_content_hash :: bool

text \<open>
  Python's truth value of an optional float, int or string: \<^verbatim>\<open>None\<close>, \<open>0\<close> and the empty
  string are false.
\<close>

definition truthy_num :: "'a::zero option \<Rightarrow> bool" where
  "truthy_num x = (case x of None \<Rightarrow> False | Some v \<Rightarrow> \<not> v = 0)"

definition truthy_str :: "string option \<Rightarrow> bool" where
  "truthy_str x = (case x of None \<Rightarrow> False | Some v \<Rightarrow> \<not> v = [])"

definition time_diff :: "FileMetadata \<Rightarrow> FileMetadata \<Rightarrow> real" where
  "time_diff meta1 meta2 =
     (case (mtime meta1, mtime meta2) of
        (Some a, Some b) \<Rightarrow> \<bar>a - b\<bar>
      | _ \<Rightarrow> 0)"

definition files_identical :: "ConflictDetector \<Rightarrow> FileMetadata \<Rightarrow> FileMetadata \<Rightarrow> bool" where
  "files_identical self meta1 meta2 =
     (if \<not> exists meta1 = exists meta2 then False
      else if \<not> exists meta1 \<and> \<not> exists meta2 then True
      else if \<not> size meta1 = size meta2 then False
      else if truthy_num (mtime meta1) \<and> truthy_num (mtime meta2)
              \<and> time_diff meta1 meta2 > of_int (time_tolerance self)
              \<and> \<not> enable_content_hash self then False
      else if enable_content_hash self \<and> truthy_str (content_hash meta1)
              \<and> truthy_str (content_hash meta2)
           then content_hash meta1 = content_hash meta2
      else True)"

text \<open>\<^verbatim>\<open>base_meta and base_meta.exists\<close>: the base is given and exists.\<close>

definition base_exists :: "FileMetadata option \<Rightarrow> bool" where
  "base_exists base = (case base of None \<Rightarrow> False | Some b \<Rightarrow> exists b)"

definition base_missing :: "FileMetadata option \<Rightarrow> bool" where
  "base_missing base = (case base of None \<Rightarrow> False | Some b \<Rightarrow> \<not> exists b)"

definition detect_conflict ::
  "ConflictDetector \<Rightarrow> FileMetadata \<Rightarrow> FileMetadata \<Rightarrow> FileMetadata option
     \<Rightarrow> ConflictInfo option" where
  "detect_conflict self local remote base =
     (if \<not> exists local \<and> \<not> exists remote then None
      else if exists local \<and> \<not> exists remote then
        (if base_exists base
         then Some \<lparr>conflict_type = REMOTE_DELETED_LOCAL_MODIFIED, local_meta = local,
                    remote_meta = remote, base_meta = base,
                    details = ''Remote deleted but local modified''\<rparr>
         else None)
      else if \<not> exists local \<and> exists remote then
        (if base_exists base
         then Some \<lparr>conflict_type = LOCAL_DELETED_REMOTE_MODIFIED, local_meta = local,
                    remote_meta = remote, base_meta = base,
                    details = ''Local deleted but remote modified''\<rparr>
         else None)
      else if base_missing base \<and> \<not> files_identical self local remote
        then Some \<lparr>conflict_type = BOTH_CREATED, local_meta = local,
                    remote_meta = remote, base_meta = base,
                    details = ''Both sides created different files''\<rparr>
      else if files_identical self local remote then None
      else if base_exists base
              \<and> \<not> files_identical self local (the base)
              \<and> \<not> files_identical self remote (the base)
        then Some \<lparr>conflict_type = BOTH_MODIFIED, local_meta = local,
                    remote_meta = remote, base_meta = base,
                    details = ''Both sides modified the file''\<rparr>
      else None)"

text \<open>The mirror of a conflict type, as the specification's symmetry law names it.\<close>

fun mirror :: "ConflictType \<Rightarrow> ConflictType" where
  "mirror LOCAL_DELETED_REMOTE_MODIFIED = REMOTE_DELETED_LOCAL_MODIFIED"
| "mirror REMOTE_DELETED_LOCAL_MODIFIED = LOCAL_DELETED_REMOTE_MODIFIED"
| "mirror t = t"

text \<open>
  The reading of "identical" that the specification gives for two existing files: equal
  sizes, and equal hashes when hashing is enabled and both hashes are present, and otherwise
  modification times within the tolerance when both are present.
\<close>

definition spec_identical :: "ConflictDetector \<Rightarrow> FileMetadata \<Rightarrow> FileMetadata \<Rightarrow> bool" where
  "spec_identical self meta1 meta2 =
     (size meta1 = size meta2 \<and>
      (if enable_content_hash self \<and> \<not> content_hash meta1 = None \<and> \<not> content_hash meta2 = None
       then content_hash meta1 = content_hash meta2
       else (if \<not> mtime meta1 = None \<and> \<not> mtime meta2 = None
             then time_diff meta1 meta2 \<le> of_int (time_tolerance self)
             else True)))"

section \<open>Conflict resolver (\<^verbatim>\<open>sersync/bidirectional/conflict_resolver.py\<close>)\<close>

datatype ResolutionStrategy =
    KEEP_NEWER | KEEP_OLDER | KEEP_LARGER | KEEP_LOCAL | KEEP_REMOTE
  | BACKUP_BOTH | MANUAL | SKIP

record ResolutionResult =
  success :: bool
  strategy_used :: ResolutionStrategy
  action_taken :: string
  backup_paths :: "(string \<times> string) list"
  error_message :: "string option"

text \<open>
  The resolver's configuration. \<open>copy_backup\<close> stands for the body of the \<^verbatim>\<open>try\<close> in
  \<^verbatim>\<open>_backup_file\<close>: it names the backup after the file, the side and the clock, copies
  the file with \<^verbatim>\<open>shutil.copy2\<close>, and answers the path of the copy, or \<open>None\<close> when the
  copy raised.
\<close>

record ConflictResolver =
  default_strategy :: ResolutionStrategy
  backup_dir :: string
  enable_backup :: bool
  copy_backup :: "string \<Rightarrow> string \<Rightarrow> string option"

definition backup_file :: "ConflictResolver \<Rightarrow> FileMetadata \<Rightarrow> string \<Rightarrow> string option" where
  "backup_file self file_meta source =
     (if \<not> exists file_meta then None
      else copy_backup self (meta_path file_meta) source)"

text \<open>\<^verbatim>\<open>{side: backup_path} if backup_path else {}\<close>.\<close>

definition backup_dict :: "string \<Rightarrow> string option \<Rightarrow> (string \<times> string) list" where
  "backup_dict side backup_path =
     (case backup_path of
        None \<Rightarrow> []
      | Some p \<Rightarrow> if p = [] then [] else [(side, p)])"

definition resolve_keep_newer :: "ConflictResolver \<Rightarrow> ConflictInfo \<Rightarrow> ResolutionResult" where
  "resolve_keep_newer self conflict =
     (let local = local_meta conflict; remote = remote_meta conflict
      in if \<not> exists local then
           \<lparr>success = True, strategy_used = KEEP_NEWER,
            action_taken = ''Use remote (local deleted)'', backup_paths = [],
            error_message = None\<rparr>
         else if \<not> exists remote then
           \<lparr>success = True, strategy_used = KEEP_NEWER,
            action_taken = ''Use local (remote deleted)'', backup_paths = [],
            error_message = None\<rparr>
         else if truthy_num (mtime local) \<and> truthy_num (mtime remote) then
           (if the (mtime local) > the (mtime remote) then
              (let backup_path = (if enable_backup self
                                  then backup_file self remote ''remote'' else None)
               in \<lparr>success = True, strategy_used = KEEP_NEWER,
                   action_taken = ''Use local (newer)'',
                   backup_paths = backup_dict ''remote'' backup_path,
                   error_message = None\<rparr>)
            else
              (let backup_path = (if enable_backup self
                                  then backup_file self local ''local'' else None)
               in \<lparr>success = True, strategy_used = KEEP_NEWER,
                   action_taken = ''Use remote (newer)'',
                   backup_paths = backup_dict ''local'' backup_path,
                   error_message = None\<rparr>))
         else
           \<lparr>success = True, strategy_used = KEEP_NEWER,
            action_taken = ''Use local (default)'', backup_paths = [],
            error_message = None\<rparr>)"

section \<open>Metadata manager (\<^verbatim>\<open>sersync/bidirectional/metadata_manager.py\<close>)\<close>

text \<open>
  The manager after the first two lines of its constructor: \<open>watch_path\<close> is the string of
  \<^verbatim>\<open>Path(watch_path).resolve()\<close>. Two library functions are parameters: \<open>resolve\<close> is
  \<^verbatim>\<open>str(Path(p).resolve())\<close> (\<open>None\<close> when it raises), \<open>md5_hex\<close> is
  \<^verbatim>\<open>hashlib.md5(s.encode()).hexdigest()\<close>.
\<close>

record MetadataManager =
  watch_path :: string
  remote_name :: string
  resolve :: "string \<Rightarrow> string option"
  md5_hex :: "string \<Rightarrow> string"

datatype config_error = ValueError string string

record metadata_paths =
  state_dir :: "string option"
  conflict_dir :: "string option"
  lock_file :: "string option"

definition is_path_inside_watch :: "MetadataManager \<Rightarrow> string \<Rightarrow> bool" where
  "is_path_inside_watch self p =
     (case resolve self p of
        None \<Rightarrow> False
      | Some path_resolved \<Rightarrow> prefix (watch_path self) path_resolved)"

definition generate_path_hash :: "MetadataManager \<Rightarrow> string" where
  "generate_path_hash self = take 8 (md5_hex self (watch_path self @ '':'' @ remote_name self))"

definition get_default_state_dir :: "MetadataManager \<Rightarrow> string" where
  "get_default_state_dir self =
     ''/var/sersync/bidirectional/'' @ generate_path_hash self @ ''/state''"

definition get_default_conflict_dir :: "MetadataManager \<Rightarrow> string" where
  "get_default_conflict_dir self =
     ''/var/sersync/bidirectional/'' @ generate_path_hash self @ ''/conflicts''"

definition get_default_lock_file :: "MetadataManager \<Rightarrow> string" where
  "get_default_lock_file self =
     ''/var/sersync/bidirectional/'' @ generate_path_hash self @ ''/sync.lock''"

text \<open>
  The validation loop over \<^verbatim>\<open>metadata_config.items()\<close>: the first offending entry
  raises \<^verbatim>\<open>ValueError\<close>, reported here with its key and path.
\<close>

fun validate_config ::
  "MetadataManager \<Rightarrow> (string \<times> string option) list \<Rightarrow> config_error option" where
  "validate_config self [] = None"
| "validate_config self ((key, p) # rest) =
     (if truthy_str p \<and> is_path_inside_watch self (the p)
      then Some (ValueError key (the p))
      else validate_config self rest)"

text \<open>\<^verbatim>\<open>dict.get(key, default)\<close> on a dict whose values may be \<^verbatim>\<open>None\<close>.\<close>

definition dict_get ::
  "(string \<times> string option) list \<Rightarrow> string \<Rightarrow> string \<Rightarrow> string option" where
  "dict_get d key dflt = (case map_of d key of None \<Rightarrow> Some dflt | Some v \<Rightarrow> v)"

definition default_paths :: "MetadataManager \<Rightarrow> metadata_paths" where
  "default_paths self =
     \<lparr>state_dir = Some (get_default_state_dir self),
      conflict_dir = Some (get_default_conflict_dir self),
      lock_file = Some (get_default_lock_file self)\<rparr>"

definition generate_safe_paths ::
  "MetadataManager \<Rightarrow> (string \<times> string option) list option \<Rightarrow> config_error + metadata_paths" where
  "generate_safe_paths self metadata_config =
     (case metadata_config of
        None \<Rightarrow> Inr (default_paths self)
      | Some cfg \<Rightarrow>
          if cfg = [] then Inr (default_paths self)
          else (case validate_config self cfg of
                  Some err \<Rightarrow> Inl err
                | None \<Rightarrow>
                    Inr \<lparr>state_dir = dict_get cfg ''metadata_dir'' (get_default_state_dir self),
                         conflict_dir = dict_get cfg ''conflict_backup_dir''
                                          (get_default_conflict_dir self),
                         lock_file = dict_get cfg ''lock_file'' (get_default_lock_file self)\<rparr>))"

section \<open>Python string operations used by the dispatcher and the ledger executor\<close>

text \<open>
  A character of the strings below is a code point under 256: the type has no others, so
  text with code points from 256 on is outside the model. \<open>is_space\<close> is the white space
  that \<^verbatim>\<open>str.strip\<close> and \<^verbatim>\<open>str.split\<close> remove, on that range: tab, line feed, vertical
  tab, form feed, carriage return, the four separators 0x1C to 0x1F, the space, the next
  line control 0x85 and the no-break space 0xA0. \<open>utf8_size\<close> is the size in bytes of
  a file holding the text in UTF-8: code points from 128 on take two bytes.
\<close>

definition is_space :: "char \<Rightarrow> bool" where
  "is_space c = (c \<in> {CHR 0x09, CHR 0x0A, CHR 0x0B, CHR 0x0C, CHR 0x0D,
                       CHR 0x1C, CHR 0x1D, CHR 0x1E, CHR 0x1F, CHR 0x20,
                       CHR 0x85, CHR 0xA0})"

definition utf8_size :: "string \<Rightarrow> nat" where
  "utf8_size s = length s + length (filter (\<lambda>c. 128 \<le> (of_char c :: nat)) s)"

definition rstrip :: "string \<Rightarrow> string" where
  "rstrip s = rev (dropWhile is_space (rev s))"

definition strip :: "string \<Rightarrow> string" where
  "strip s = rstrip (dropWhile is_space s)"

text \<open>\<^verbatim>\<open>s.split()\<close>: the maximal runs of characters that are not white space.\<close>

fun split_ws_from :: "string \<Rightarrow> string \<Rightarrow> string list" where
  "split_ws_from cur [] = (if cur = [] then [] else [cur])"
| "split_ws_from cur (c # cs) =
     (if is_space c
      then (if cur = [] then split_ws_from [] cs else cur # split_ws_from [] cs)
      else split_ws_from (cur @ [c]) cs)"

definition split_ws :: "string \<Rightarrow> string list" where
  "split_ws s = split_ws_from [] s"

text \<open>\<^verbatim>\<open>s.split('\n')\<close> and \<^verbatim>\<open>sep.join(xs)\<close>.\<close>

fun split_nl :: "string \<Rightarrow> string list" where
  "split_nl [] = [[]]"
| "split_nl (c # cs) =
     (if c = CHR ''\<newline>'' then [] # split_nl cs
      else (case split_nl cs of
              [] \<Rightarrow> [[c]]
            | l # ls \<Rightarrow> (c # l) # ls))"

fun join :: "string \<Rightarrow> string list \<Rightarrow> string" where
  "join sep [] = []"
| "join sep [x] = x"
| "join sep (x # y # zs) = x @ sep @ join sep (y # zs)"

text \<open>\<^verbatim>\<open>sub in s\<close>.\<close>

fun is_substring :: "string \<Rightarrow> string \<Rightarrow> bool" where
  "is_substring sub [] = (sub = [])"
| "is_substring sub (c # cs) = (prefix sub (c # cs) \<or> is_substring sub cs)"

text \<open>
  \<^verbatim>\<open>s.replace(old, '')\<close>: every occurrence of \<open>old\<close>, found from the left without overlap,
  is deleted.
\<close>

function replace_with_empty :: "string \<Rightarrow> string \<Rightarrow> string" where
  "replace_with_empty old s =
     (if old = [] \<or> s = [] then s
      else if prefix old s then replace_with_empty old (drop (length old) s)
      else hd s # replace_with_empty old (tl s))"
  by pat_completeness auto
termination
  by (relation "measure (\<lambda>(old, s). length s)") auto

declare replace_with_empty.simps [simp del]

text \<open>\<^verbatim>\<open>list.insert(i, x)\<close> for \<open>i \<ge> 0\<close>: past the end it appends.\<close>

definition list_insert :: "nat \<Rightarrow> 'a \<Rightarrow> 'a list \<Rightarrow> 'a list" where
  "list_insert i x xs = take i xs @ [x] @ drop i xs"

text \<open>The decimal numeral that an f-string prints for an integer.\<close>

definition digit :: "nat \<Rightarrow> char" where
  "digit d = char_of (48 + d)"

function str_nat :: "nat \<Rightarrow> string" where
  "str_nat n = (if n < 10 then [digit n] else str_nat (n div 10) @ [digit (n mod 10)])"
  by pat_completeness auto
termination
  by (relation "measure id") auto

declare str_nat.simps [simp del]

definition str_int :: "int \<Rightarrow> string" where
  "str_int i = (if i < 0 then ''-'' @ str_nat (nat (- i)) else str_nat (nat i))"

text \<open>The first line of a file: the characters before the first line feed.\<close>

definition first_line :: "string \<Rightarrow> string" where
  "first_line s = takeWhile (\<lambda>c. \<not> c = CHR ''\<newline>'') s"

section \<open>Dispatcher (\<^verbatim>\<open>sersync/core/sync_engine.py\<close>)\<close>

record RsyncConfig =
  common_params :: string
  auth_enabled :: bool
  auth_users :: "string option"
  auth_passwordfile :: "string option"
  custom_port_enabled :: bool
  custom_port :: int
  timeout_enabled :: bool
  timeout :: int
  ssh_enabled :: bool

record RemoteConfig =
  ip :: string
  name :: string

text \<open>
  What the dispatcher asks of the world. The four path functions are those of
  \<^verbatim>\<open>pathlib\<close> on the strings the code passes: \<^verbatim>\<open>Path(p).exists()\<close>,
  \<^verbatim>\<open>str(Path(p).parent)\<close>, \<^verbatim>\<open>Path(p).name\<close> and
  \<^verbatim>\<open>str(Path(p).relative_to(base))\<close> (\<open>None\<close> is its \<^verbatim>\<open>ValueError\<close>).
  \<open>run_process\<close> is the subprocess started on a command line and awaited; \<open>now\<close> is the
  clock as \<^verbatim>\<open>strftime('%Y-%m-%d %H:%M:%S')\<close> prints it.
\<close>

datatype proc_result =
    Exited int string string
  | TimedOut
  | Raised string

record sync_env =
  path_exists :: "string \<Rightarrow> bool"
  path_parent :: "string \<Rightarrow> string"
  path_name :: "string \<Rightarrow> string"
  path_relative_to :: "string \<Rightarrow> string \<Rightarrow> string option"
  run_process :: "string list \<Rightarrow> proc_result"
  now :: string

record SyncEngine =
  config :: RsyncConfig
  remotes :: "RemoteConfig list"
  engine_watch_path :: string

text \<open>\<^verbatim>\<open>event_type.startswith('DELETE')\<close>.\<close>

definition is_delete :: "string \<Rightarrow> bool" where
  "is_delete event_type = prefix ''DELETE'' event_type"

text \<open>
  \<^verbatim>\<open>_build_rsync_cmd\<close>. \<open>build_source\<close> is the value of the variable \<^verbatim>\<open>source\<close> after
  the delete branch; \<open>build_dest\<close> the destination computed from it.
\<close>

definition build_source :: "sync_env \<Rightarrow> string \<Rightarrow> string \<Rightarrow> string" where
  "build_source env source event_type =
     (if is_delete event_type \<and> \<not> path_exists env source
         \<and> path_exists env (path_parent env source)
      then path_parent env source @ ''/''
      else source)"

definition relative_path :: "sync_env \<Rightarrow> SyncEngine \<Rightarrow> string \<Rightarrow> string" where
  "relative_path env self source =
     (case path_relative_to env source (engine_watch_path self) of
        Some r \<Rightarrow> r
      | None \<Rightarrow> path_name env source)"

definition build_dest :: "sync_env \<Rightarrow> SyncEngine \<Rightarrow> string \<Rightarrow> RemoteConfig \<Rightarrow> string" where
  "build_dest env self source remote =
     (if ssh_enabled (config self)
      then ip remote @ '':'' @ name remote @ ''/'' @ relative_path env self source
      else (if truthy_str (auth_users (config self))
            then the (auth_users (config self)) @ ''@'' else '''')
           @ ip remote @ ''::'' @ name remote @ ''/'' @ relative_path env self source)"

definition build_rsync_cmd ::
  "sync_env \<Rightarrow> SyncEngine \<Rightarrow> string \<Rightarrow> RemoteConfig \<Rightarrow> string \<Rightarrow> string list" where
  "build_rsync_cmd env self source remote event_type =
     [''rsync'']
     @ split_ws (common_params (config self))
     @ (if is_delete event_type then [''--delete''] else [])
     @ (if auth_enabled (config self) \<and> truthy_str (auth_passwordfile (config self))
        then [''--password-file='' @ the (auth_passwordfile (config self))] else [])
     @ (if timeout_enabled (config self)
        then [''--timeout='' @ str_int (timeout (config self))] else [])
     @ (if custom_port_enabled (config self)
        then [''--port='' @ str_int (custom_port (config self))] else [])
     @ (if ssh_enabled (config self) then [''-e'', ''ssh''] else [])
     @ [build_source env source event_type,
        build_dest env self (build_source env source event_type) remote]"

text \<open>
  The dict returned by \<^verbatim>\<open>_rsync_to_remote\<close>; the keys \<^verbatim>\<open>'returncode'\<close> and
  \<^verbatim>\<open>'output'\<close> are absent after a timeout or an exception.
\<close>

record rsync_result =
  rs_success :: bool
  rs_returncode :: "int option"
  rs_output :: "string option"
  rs_error :: string

text \<open>
  \<^verbatim>\<open>_rsync_to_remote\<close>, with the list of command lines it handed to
  \<^verbatim>\<open>create_subprocess_exec\<close> (none or one).
\<close>

definition rsync_to_remote ::
  "sync_env \<Rightarrow> SyncEngine \<Rightarrow> string \<Rightarrow> RemoteConfig \<Rightarrow> string
     \<Rightarrow> rsync_result \<times> string list list" where
  "rsync_to_remote env self source remote event_type =
     (if is_delete event_type \<and> \<not> path_exists env source
         \<and> \<not> path_exists env (path_parent env source)
      then (\<lparr>rs_success = True, rs_returncode = Some 0,
             rs_output = Some ''Source already deleted, sync skipped'',
             rs_error = ''''\<rparr>, [])
      else
        (let cmd = build_rsync_cmd env self source remote event_type
         in (case run_process env cmd of
               Exited returncode stdout stderr \<Rightarrow>
                 (let success = (returncode = 0);
                      success2 =
                        (if \<not> success \<and> is_delete event_type \<and> returncode = 23
                            \<and> is_substring ''No such file or directory'' stderr
                         then True else success)
                  in (\<lparr>rs_success = success2, rs_returncode = Some returncode,
                        rs_output = Some stdout, rs_error = stderr\<rparr>, [cmd]))
             | TimedOut \<Rightarrow>
                 (\<lparr>rs_success = False, rs_returncode = None, rs_output = None,
                   rs_error = ''Timeout''\<rparr>, [cmd])
             | Raised msg \<Rightarrow>
                 (\<lparr>rs_success = False, rs_returncode = None, rs_output = None,
                   rs_error = msg\<rparr>, [cmd]))))"

text \<open>
  \<^verbatim>\<open>_log_failure\<close>: the content of the ledger file after the call, from the file before
  it (\<open>None\<close> when the file does not exist). The file operations are taken to succeed (an
  exception would leave the file as it is).
\<close>

definition ledger_header :: string where
  "ledger_header =
     ''#!/bin/bash\<newline># FailLog retry script - generated by sersync\<newline>RETRY_COUNT=0\<newline>FAILED_COUNT=0\<newline>\<newline>''"

definition ensure_header :: "string option \<Rightarrow> string" where
  "ensure_header ledger =
     (case ledger of
        None \<Rightarrow> ledger_header
      | Some content \<Rightarrow>
          if \<not> prefix ''#!/bin/bash'' content then ledger_header @ content
          else if \<not> is_substring ''RETRY_COUNT=0'' content then
            join ''\<newline>''
              (list_insert 5 ''''
                (list_insert 4 ''FAILED_COUNT=0''
                  (list_insert 3 ''RETRY_COUNT=0''
                    (list_insert 2 ''# FailLog retry script - generated by sersync''
                      (split_nl content)))))
          else content)"

definition retry_block :: "string \<Rightarrow> string list" where
  "retry_block cmd =
     [''echo 'Retrying: '' @ cmd @ [CHR 0x27],
      cmd,
      ''RETRY_RESULT=$?'',
      ''if [ $RETRY_RESULT -eq 0 ]; then'',
      ''    echo 'SUCCESS: '' @ cmd @ [CHR 0x27],
      ''else'',
      ''    echo 'FAILED: '' @ cmd @ '' (exit code: '$RETRY_RESULT')'' @ [CHR 0x27],
      ''    FAILED_COUNT=$((FAILED_COUNT + 1))'',
      ''fi'',
      ''RETRY_COUNT=$((RETRY_COUNT + 1))'',
      '''']"

definition log_failure ::
  "sync_env \<Rightarrow> SyncEngine \<Rightarrow> string \<Rightarrow> RemoteConfig \<Rightarrow> string \<Rightarrow> string option
     \<Rightarrow> string" where
  "log_failure env self file_path remote event_type ledger =
     (let cmd_str = join '' '' (build_rsync_cmd env self file_path remote event_type)
      in ensure_header ledger
         @ concat (map (\<lambda>l. l @ ''\<newline>'')
             ((''# Failed at '' @ now env @ '' - '' @ event_type @ '' '' @ file_path
                 @ '' -> '' @ ip remote @ ''::'' @ name remote)
              # retry_block cmd_str)))"

text \<open>
  \<^verbatim>\<open>sync_file\<close>: the loop over the remotes threads the ledger file, the function then
  updates the three counters of \<^verbatim>\<open>stats\<close>.
\<close>

record remote_result =
  r_remote :: string
  r_success :: bool
  r_output :: string
  r_error :: string

record sync_file_result =
  sf_file_path :: string
  sf_event_type :: string
  results :: "remote_result list"
  all_success :: bool

record sync_state =
  fail_log_file :: "string option"
  total_syncs :: nat
  success_syncs :: nat
  failed_syncs :: nat

fun sync_file_loop ::
  "sync_env \<Rightarrow> SyncEngine \<Rightarrow> string \<Rightarrow> string \<Rightarrow> RemoteConfig list \<Rightarrow> string option
     \<Rightarrow> remote_result list \<times> string option" where
  "sync_file_loop env self fp et [] ledger = ([], ledger)"
| "sync_file_loop env self fp et (rem # rest) ledger =
     (let result = fst (rsync_to_remote env self fp rem et);
          entry = \<lparr>r_remote = ip rem @ ''::'' @ name rem,
                   r_success = rs_success result,
                   r_output = (case rs_output result of Some out \<Rightarrow> out | None \<Rightarrow> ''''),
                   r_error = rs_error result\<rparr>;
          ledger2 = (if \<not> rs_success result
                     then Some (log_failure env self fp rem et ledger) else ledger);
          r = sync_file_loop env self fp et rest ledger2
      in (entry # fst r, snd r))"

definition sync_file ::
  "sync_env \<Rightarrow> SyncEngine \<Rightarrow> string \<Rightarrow> string \<Rightarrow> sync_state
     \<Rightarrow> sync_file_result \<times> sync_state" where
  "sync_file env self fp et st =
     (let r = sync_file_loop env self fp et (remotes self) (fail_log_file st);
          rs = fst r
      in (\<lparr>sf_file_path = fp, sf_event_type = et, results = rs,
            all_success = list_all r_success rs\<rparr>,
          st\<lparr>fail_log_file := snd r,
             total_syncs := total_syncs st + length (remotes self),
             success_syncs := success_syncs st + length (filter r_success rs),
             failed_syncs := failed_syncs st + length (filter (\<lambda>x. \<not> r_success x) rs)\<rparr>))"

text \<open>
  The outcome of one invocation as the specification words it: exit code 0, or, for a
  delete event, exit code 23 with \<^verbatim>\<open>No such file or directory\<close> in the captured stderr.
\<close>

definition outcome_success :: "string \<Rightarrow> proc_result \<Rightarrow> bool" where
  "outcome_success event_type p =
     (case p of
        Exited returncode stdout stderr \<Rightarrow>
          returncode = 0 \<or>
          (is_delete event_type \<and> returncode = 23
             \<and> is_substring ''No such file or directory'' stderr)
      | TimedOut \<Rightarrow> False
      | Raised msg \<Rightarrow> False)"

section \<open>Ledger executor (\<^verbatim>\<open>sersync/core/faillog_executor.py\<close>)\<close>

text \<open>
  The two runs of the script through \<^verbatim>\<open>/bin/bash\<close> are the executor's view of the world:
  \<open>execute_script\<close> answers whether the run of the given file content exited with 0,
  \<open>execute_script_with_analysis\<close> answers that and the captured standard output.
\<close>

record exec_env =
  execute_script :: "string \<Rightarrow> bool"
  execute_script_with_analysis :: "string \<Rightarrow> bool \<times> string"

definition has_rsync_commands :: "string \<Rightarrow> bool" where
  "has_rsync_commands content =
     list_ex (\<lambda>line. prefix ''rsync '' (strip line)) (split_nl (strip content))"

definition clear_script :: string where
  "clear_script = ''#!/bin/bash\<newline>''"

definition result_check :: string where
  "result_check =
     join ''\<newline>''
       ['''',
        ''# === FailLog Retry Results ==='',
        ''echo '' @ [CHR 0x22] @ ''=== FailLog Retry Summary ==='' @ [CHR 0x22],
        ''echo '' @ [CHR 0x22] @ ''Total retry attempts: $RETRY_COUNT'' @ [CHR 0x22],
        ''echo '' @ [CHR 0x22] @ ''Failed attempts: $FAILED_COUNT'' @ [CHR 0x22],
        ''echo '' @ [CHR 0x22] @ ''Successful attempts: $((RETRY_COUNT - FAILED_COUNT))''
          @ [CHR 0x22],
        '''',
        ''if [ $FAILED_COUNT -eq 0 ]; then'',
        ''    echo '' @ [CHR 0x22] @ ''All retries successful - clearing failLog'' @ [CHR 0x22],
        ''    exit 0'',
        ''else'',
        ''    echo '' @ [CHR 0x22]
          @ ''Some retries failed - will regenerate script with only failed commands''
          @ [CHR 0x22],
        ''    exit 1'',
        ''fi'',
        '''']"

definition add_result_check_to_script :: "string \<Rightarrow> string" where
  "add_result_check_to_script content =
     (if is_substring (''echo '' @ [CHR 0x22] @ ''=== FailLog Retry Summary ==='' @ [CHR 0x22]
                         @ '' '') content
      then content
      else rstrip content @ result_check)"

text \<open>
  \<^verbatim>\<open>_parse_failed_commands_from_output\<close>: one turn of the loop over the lines, on the
  pair of the list of failed commands (each a pair of the command and the line that
  reported it) and \<^verbatim>\<open>current_retrying_cmd\<close>.
\<close>

definition parse_line ::
  "(string \<times> string) list \<times> string option \<Rightarrow> string
     \<Rightarrow> (string \<times> string) list \<times> string option" where
  "parse_line st l =
     (let failed_commands = fst st; current_retrying_cmd = snd st; line = strip l
      in if prefix ''Retrying: '' line
         then (failed_commands, Some (replace_with_empty ''Retrying: '' line))
         else if prefix ''FAILED: '' line \<and> truthy_str current_retrying_cmd
         then ((if the current_retrying_cmd \<in> set (map fst failed_commands)
                then failed_commands
                else failed_commands @ [(the current_retrying_cmd, line)]),
               None)
         else if prefix ''SUCCESS: '' line
         then (failed_commands, None)
         else (failed_commands, current_retrying_cmd))"

definition parse_failed_commands_from_output :: "string \<Rightarrow> (string \<times> string) list" where
  "parse_failed_commands_from_output out = fst (foldl parse_line ([], None) (split_nl out))"

text \<open>\<^verbatim>\<open>_generate_script_with_commands\<close>; \<open>i\<close> is the index \<^verbatim>\<open>enumerate\<close> counts.\<close>

fun command_blocks :: "nat \<Rightarrow> (string \<times> string) list \<Rightarrow> string list" where
  "command_blocks i [] = []"
| "command_blocks i (cmd_info # rest) =
     (''# Retry command '' @ str_nat (i + 1) @ '' (previously failed)'')
     # retry_block (fst cmd_info)
     @ command_blocks (i + 1) rest"

definition generate_script_with_commands :: "(string \<times> string) list \<Rightarrow> string" where
  "generate_script_with_commands commands =
     join ''\<newline>''
       ([''#!/bin/bash'',
         ''# FailLog retry script - generated by sersync (incremental cleanup)'',
         ''RETRY_COUNT=0'',
         ''FAILED_COUNT=0'',
         '''']
        @ command_blocks 0 commands)"

text \<open>
  \<^verbatim>\<open>_perform_incremental_cleanup\<close> and \<^verbatim>\<open>_check_and_execute\<close> on the content of the
  ledger file (\<open>None\<close> when it does not exist); the result is the file after the tick.
\<close>

definition perform_incremental_cleanup :: "exec_env \<Rightarrow> string \<Rightarrow> string" where
  "perform_incremental_cleanup env content =
     (let r = execute_script_with_analysis env content
      in if fst r then clear_script
         else (let failed_commands = parse_failed_commands_from_output (snd r)
               in if failed_commands = [] then content
                  else generate_script_with_commands failed_commands))"

definition check_and_execute :: "exec_env \<Rightarrow> string option \<Rightarrow> string option" where
  "check_and_execute env script =
     (case script of
        None \<Rightarrow> None
      | Some content \<Rightarrow>
          if utf8_size content \<le> 12 then Some content
          else if \<not> has_rsync_commands content then Some content
          else (let content2 = add_result_check_to_script content
                in if execute_script env content2 then Some clear_script
                   else Some (perform_incremental_cleanup env content2)))"

text \<open>The rsync command lines of a ledger: the lines that start with \<^verbatim>\<open>rsync\<close> and a space.\<close>

definition rsync_command_lines :: "string \<Rightarrow> string list" where
  "rsync_command_lines content =
     filter (\<lambda>line. prefix ''rsync '' (strip line)) (split_nl content)"

section \<open>A concrete retry scenario\<close>

text \<open>
  The watched root is \<^verbatim>\<open>/w\<close>, the remote is \<^verbatim>\<open>10.0.0.2::data\<close>, the flags are the default
  \<^verbatim>\<open>-artuz\<close>, and the file \<^verbatim>\<open>/w/Retrying:\<close> could not be synchronised. \<open>retry_output\<close>
  is what the ledger script prints when the retry fails again with exit code 10: the two
  \<^verbatim>\<open>echo\<close> lines of the entry, then the summary.
\<close>

definition retry_env :: sync_env where
  "retry_env =
     \<lparr>path_exists = (\<lambda>p. True), path_parent = (\<lambda>p. ''/w''),
      path_name = (\<lambda>p. ''Retrying:''),
      path_relative_to = (\<lambda>p b. Some ''Retrying:''),
      run_process = (\<lambda>c. Exited 10 [] []), now = ''2024-01-01 00:00:00''\<rparr>"

definition retry_remote :: RemoteConfig where
  "retry_remote = \<lparr>ip = ''10.0.0.2'', name = ''data''\<rparr>"

definition retry_engine :: SyncEngine where
  "retry_engine =
     \<lparr>config = \<lparr>common_params = ''-artuz'', auth_enabled = False, auth_users = None,
                auth_passwordfile = None, custom_port_enabled = False,
                custom_port = 874, timeout_enabled = False, timeout = 100,
                ssh_enabled = False\<rparr>,
      remotes = [retry_remote], engine_watch_path = ''/w''\<rparr>"

definition retry_ledger :: string where
  "retry_ledger = log_failure retry_env retry_engine ''/w/Retrying:'' retry_remote ''CLOSE_WRITE'' None"

definition retry_output :: string where
  "retry_output =
     ''Retrying: rsync -artuz /w/Retrying: 10.0.0.2::data/Retrying:\<newline>FAILED: rsync -artuz /w/Retrying: 10.0.0.2::data/Retrying: (exit code: 10)\<newline>=== FailLog Retry Summary ===\<newline>Total retry attempts: 1\<newline>Failed attempts: 1\<newline>Successful attempts: 0\<newline>Some retries failed - will regenerate script with only failed commands\<newline>''"

definition retry_exec :: exec_env where
  "retry_exec =
     \<lparr>execute_script = (\<lambda>c. False),
      execute_script_with_analysis = (\<lambda>c. (False, retry_output))\<rparr>"

text \<open>
  The lines a ledger script prints for its entries, by the \<^verbatim>\<open>echo\<close> commands that
  \<^verbatim>\<open>_log_failure\<close> and \<^verbatim>\<open>_generate_script_with_commands\<close> write: for each command the
  line \<^verbatim>\<open>Retrying: <cmd>\<close>, then \<^verbatim>\<open>SUCCESS: <cmd>\<close> when the retry succeeded (the flag is
  true) and \<^verbatim>\<open>FAILED: <cmd> (exit code: <n>)\<close> when it failed.
\<close>

definition printed_lines :: "string \<times> bool \<Rightarrow> string list" where
  "printed_lines e =
     [''Retrying: '' @ fst e,
      (if snd e then ''SUCCESS: '' @ fst e
       else ''FAILED: '' @ fst e @ '' (exit code: 1)'')]"

text \<open>
  A command the parser reads back unchanged: not empty, no white space at its end, and
  no occurrence of the marker \<^verbatim>\<open>Retrying: \<close> in it.
\<close>

definition plain_command :: "string \<Rightarrow> bool" where
  "plain_command c =
     (\<not> c = [] \<and> \<not> is_space (last c) \<and> \<not> is_substring ''Retrying: '' c)"

section \<open>The ledgers the program writes\<close>

text \<open>
  The contents the ledger file can have after an operation of the program: the append of
  the dispatcher on a missing file, on a file that does not begin with \<^verbatim>\<open>#!/bin/bash\<close>
  (the header is put in front) and on a ledger written before; the footer that the
  executor adds before a run; the file that a tick of the executor leaves; and, whatever
  was there, the file after \<^verbatim>\<open>_clear_script\<close> and the script that
  \<^verbatim>\<open>_generate_script_with_commands\<close> produces.
\<close>

inductive written_ledger :: "string \<Rightarrow> bool" where
  created: "written_ledger (log_failure env self fp rem et None)"
| reinserted:
    "\<not> prefix ''#!/bin/bash'' content \<Longrightarrow>
     written_ledger (log_failure env self fp rem et (Some content))"
| appended:
    "written_ledger content \<Longrightarrow>
     written_ledger (log_failure env self fp rem et (Some content))"
| footer:
    "written_ledger content \<Longrightarrow> written_ledger (add_result_check_to_script content)"
| ticked:
    "written_ledger content \<Longrightarrow> check_and_execute xenv (Some content) = Some content2 \<Longrightarrow>
     written_ledger content2"
| cleared: "written_ledger clear_script"
| regenerated: "written_ledger (generate_script_with_commands commands)"

code_pred written_ledger .

section \<open>Verification\<close>

lemma last_filter_keep:
  "xs \<noteq> [] \<Longrightarrow> P (last xs) \<Longrightarrow> last (filter P xs) = last xs"
  by (induction xs rule: rev_induct) auto

lemma last_sort_key:
  assumes "ys \<noteq> []"
  shows "last (sort_key k ys) = last (filter (\<lambda>x. k x = Max (k ` set ys)) ys)"
proof -
  let ?m = "Max (k ` set ys)"
  let ?s = "sort_key k ys"
  have ne: "?s \<noteq> []" using assms by (metis length_0_conv length_sort)
  have srt: "sorted (map k ?s)" by simp
  have mem: "last ?s \<in> set ys" using ne by (metis last_in_set set_sort)
  have le: "k (last ?s) \<le> ?m" using mem by simp
  have "?m \<in> k ` set ys" using assms by (intro Max_in) auto
  then obtain y where y: "y \<in> set ?s" "k y = ?m" by auto
  have split: "butlast ?s @ [last ?s] = ?s" using ne by simp
  have "sorted (map k (butlast ?s @ [last ?s]))" using srt by (simp only: split)
  hence "\<forall>x\<in>set (butlast ?s). k x \<le> k (last ?s)" by (simp add: sorted_append)
  moreover have "set ?s = set (butlast ?s) \<union> {last ?s}"
    by (metis split set_append list.simps(15) empty_set)
  ultimately have "k y \<le> k (last ?s)" using y(1) by blast
  hence "?m \<le> k (last ?s)" using y by simp
  with le have eq: "k (last ?s) = ?m" by simp
  have "last ?s = last (filter (\<lambda>x. k x = ?m) ?s)"
    using eq ne by (simp add: last_filter_keep)
  also have "\<dots> = last (filter (\<lambda>x. k x = ?m) ys)" by (simp only: sort_key_stable)
  finally show ?thesis .
qed

lemma hd_sorted_reverse:
  assumes "xs \<noteq> []"
  shows "hd (sorted_reverse k xs) = hd (filter (\<lambda>x. k x = Max (k ` set xs)) xs)"
proof -
  have f: "filter (\<lambda>x. k x = Max (k ` set xs)) xs \<noteq> []"
  proof -
    have "Max (k ` set xs) \<in> k ` set xs" using assms by (intro Max_in) auto
    thus ?thesis by (auto simp: filter_empty_conv)
  qed
  have "hd (sorted_reverse k xs) = last (sort_key k (rev xs))"
    unfolding sorted_reverse_def using assms
    by (metis hd_rev length_0_conv length_rev length_sort)
  also have "\<dots> = last (filter (\<lambda>x. k x = Max (k ` set (rev xs))) (rev xs))"
    using assms by (intro last_sort_key) simp
  also have "\<dots> = last (rev (filter (\<lambda>x. k x = Max (k ` set xs)) xs))"
    by (simp add: rev_filter)
  also have "\<dots> = hd (filter (\<lambda>x. k x = Max (k ` set xs)) xs)"
    using f by (simp add: last_rev)
  finally show ?thesis .
qed

lemma hd_filter_index:
  "\<exists>x\<in>set xs. P x \<Longrightarrow>
   \<exists>i<length xs. hd (filter P xs) = xs ! i \<and> P (xs ! i) \<and> (\<forall>j<i. \<not> P (xs ! j))"
proof (induction xs)
  case Nil
  then show ?case by simp
next
  case (Cons a xs)
  show ?case
  proof (cases "P a")
    case True
    then show ?thesis by (intro exI[of _ 0]) simp
  next
    case False
    with Cons.prems have "\<exists>x\<in>set xs. P x" by auto
    from Cons.IH[OF this] obtain i where i: "i < length xs" "hd (filter P xs) = xs ! i"
      "P (xs ! i)" "\<forall>j<i. \<not> P (xs ! j)" by blast
    show ?thesis
    proof (intro exI[of _ "Suc i"] conjI allI impI)
      fix j assume "j < Suc i"
      then show "\<not> P ((a # xs) ! j)" using False i(4) by (cases j) auto
    qed (use False i in auto)
  qed
qed

lemma sorted_reverse_Nil_iff: "sorted_reverse k xs = [] \<longleftrightarrow> xs = []"
  unfolding sorted_reverse_def by (metis length_0_conv length_rev length_sort)

lemma merge_events_first_max:
  assumes "events \<noteq> []"
  shows "merge_events events =
           Some (let m = hd (filter (\<lambda>e. priority e = Max (priority ` set events)) events)
                 in if length events = 1 then m
                    else m\<lparr>merged_count := Some (length events)\<rparr>)"
proof (cases "length events = 1")
  case True
  then obtain e where e: "events = [e]" by (cases events) auto
  show ?thesis unfolding e merge_events_def by simp
next
  case False
  obtain m ms where s: "sorted_reverse priority events = m # ms"
    using assms sorted_reverse_Nil_iff[of priority events] by (cases "sorted_reverse priority events") auto
  have "m = hd (sorted_reverse priority events)" by (simp add: s)
  hence "m = hd (filter (\<lambda>e. priority e = Max (priority ` set events)) events)"
    using hd_sorted_reverse[OF assms, of priority] by simp
  thus ?thesis using False unfolding merge_events_def by (simp add: s Let_def)
qed

lemma priority_chain:
  "priority (e\<lparr>etype := ''DELETE_FILE''\<rparr>) = priority (e\<lparr>etype := ''DELETE_FOLDER''\<rparr>) \<and>
   priority (e\<lparr>etype := ''MOVE''\<rparr>) < priority (e\<lparr>etype := ''DELETE_FILE''\<rparr>) \<and>
   priority (e\<lparr>etype := ''CLOSE_WRITE''\<rparr>) < priority (e\<lparr>etype := ''MOVE''\<rparr>) \<and>
   priority (e\<lparr>etype := ''CLOSE_WRITE''\<rparr>) = priority (e\<lparr>etype := ''MODIFY''\<rparr>) \<and>
   priority (e\<lparr>etype := ''CREATE_FILE''\<rparr>) < priority (e\<lparr>etype := ''MODIFY''\<rparr>) \<and>
   priority (e\<lparr>etype := ''CREATE_FILE''\<rparr>) = priority (e\<lparr>etype := ''CREATE_FOLDER''\<rparr>) \<and>
   priority (e\<lparr>etype := ''ATTRIB''\<rparr>) < priority (e\<lparr>etype := ''CREATE_FILE''\<rparr>)"
  by (simp add: priority_def priority_order_def)

text \<open>
  Claim C2, as the code has it. For a non-empty group of pending events of one path,
  \<^verbatim>\<open>_merge_events\<close> returns the event at the first position \<open>i\<close> whose priority is
  the greatest of the group (every event has a priority at most that of \<open>events ! i\<close>, every
  earlier event a strictly smaller one), under the order
  Delete(File|Folder) > Move > CloseWrite = Modify > Create(File|Folder) > Attrib.
  A group of two or more events gets \<^verbatim>\<open>merged_count\<close> set to the size of the group; the
  event of a singleton group is returned as it is, without the annotation.
\<close>

theorem merge_events_highest_priority:
  assumes "events \<noteq> []"
  shows "(\<exists>i<length events.
           (\<forall>j<length events. priority (events ! j) \<le> priority (events ! i)) \<and>
           (\<forall>j<i. priority (events ! j) < priority (events ! i)) \<and>
           merge_events events =
             Some (if length events = 1 then events ! i
                   else (events ! i)\<lparr>merged_count := Some (length events)\<rparr>)) \<and>
         priority (e\<lparr>etype := ''DELETE_FILE''\<rparr>) = priority (e\<lparr>etype := ''DELETE_FOLDER''\<rparr>) \<and>
         priority (e\<lparr>etype := ''MOVE''\<rparr>) < priority (e\<lparr>etype := ''DELETE_FILE''\<rparr>) \<and>
         priority (e\<lparr>etype := ''CLOSE_WRITE''\<rparr>) < priority (e\<lparr>etype := ''MOVE''\<rparr>) \<and>
         priority (e\<lparr>etype := ''CLOSE_WRITE''\<rparr>) = priority (e\<lparr>etype := ''MODIFY''\<rparr>) \<and>
         priority (e\<lparr>etype := ''CREATE_FILE''\<rparr>) < priority (e\<lparr>etype := ''MODIFY''\<rparr>) \<and>
         priority (e\<lparr>etype := ''CREATE_FILE''\<rparr>) = priority (e\<lparr>etype := ''CREATE_FOLDER''\<rparr>) \<and>
         priority (e\<lparr>etype := ''ATTRIB''\<rparr>) < priority (e\<lparr>etype := ''CREATE_FILE''\<rparr>)"
proof -
  let ?M = "Max (priority ` set events)"
  let ?P = "\<lambda>e. priority e = ?M"
  have "?M \<in> priority ` set events" using assms by (intro Max_in) auto
  hence "\<exists>x\<in>set events. ?P x" by auto
  from hd_filter_index[OF this] obtain i where i: "i < length events"
    "hd (filter ?P events) = events ! i" "?P (events ! i)" "\<forall>j<i. \<not> ?P (events ! j)"
    by blast
  have le: "priority (events ! j) \<le> ?M" if "j < length events" for j
    using that by simp
  have lt: "priority (events ! j) < ?M" if "j < i" for j
  proof -
    have "j < length events" using that i(1) by simp
    from le[OF this] i(4) that show ?thesis by (simp add: order_less_le)
  qed
  have "\<exists>i<length events.
           (\<forall>j<length events. priority (events ! j) \<le> priority (events ! i)) \<and>
           (\<forall>j<i. priority (events ! j) < priority (events ! i)) \<and>
           merge_events events =
             Some (if length events = 1 then events ! i
                   else (events ! i)\<lparr>merged_count := Some (length events)\<rparr>)"
  proof (intro exI[of _ i] conjI allI impI)
    show "merge_events events =
             Some (if length events = 1 then events ! i
                   else (events ! i)\<lparr>merged_count := Some (length events)\<rparr>)"
      using merge_events_first_max[OF assms] i(2) by (simp add: Let_def)
  qed (use i le lt in auto)
  with priority_chain[of e] show ?thesis by blast
qed

theorem merge_events_highest_priority_witness:
  "merge_events [\<lparr>etype = ''CREATE_FILE'', path = ''/w/a'', merged_count = None\<rparr>,
                 \<lparr>etype = ''MODIFY'', path = ''/w/a'', merged_count = None\<rparr>,
                 \<lparr>etype = ''DELETE_FILE'', path = ''/w/a'', merged_count = None\<rparr>]
     = Some \<lparr>etype = ''DELETE_FILE'', path = ''/w/a'', merged_count = Some 3\<rparr>"
proof -
  let ?es = "[\<lparr>etype = ''CREATE_FILE'', path = ''/w/a'', merged_count = None\<rparr>,
              \<lparr>etype = ''MODIFY'', path = ''/w/a'', merged_count = None\<rparr>,
              \<lparr>etype = ''DELETE_FILE'', path = ''/w/a'', merged_count = None\<rparr>]"
  have ne: "?es \<noteq> []" by simp
  from merge_events_highest_priority[OF ne] obtain i where i: "i < length ?es"
    "\<forall>j<length ?es. priority (?es ! j) \<le> priority (?es ! i)"
    "merge_events ?es =
       Some (if length ?es = 1 then ?es ! i
             else (?es ! i)\<lparr>merged_count := Some (length ?es)\<rparr>)"
    by blast
  have "i = 0 \<or> i = 1 \<or> i = 2" using i(1) by auto
  moreover have "\<not> priority (?es ! 2) \<le> priority (?es ! 0)"
    by (simp add: priority_def priority_order_def)
  moreover have "\<not> priority (?es ! 2) \<le> priority (?es ! 1)"
    by (simp add: priority_def priority_order_def)
  ultimately have "i = 2" using i(2) by auto
  with i(3) show ?thesis by simp
qed

text \<open>
  The claim as it is written fails on a group of one event: the event comes back without
  \<^verbatim>\<open>merged_count\<close>, not with \<^verbatim>\<open>merged_count\<close> equal to 1.
\<close>

theorem merge_events_singleton_not_annotated:
  "merge_events [\<lparr>etype = ''MODIFY'', path = ''/w/a'', merged_count = None\<rparr>]
     = Some \<lparr>etype = ''MODIFY'', path = ''/w/a'', merged_count = None\<rparr> \<and>
   merged_count \<lparr>etype = ''MODIFY'', path = ''/w/a'', merged_count = None\<rparr>
     \<noteq> Some (length [\<lparr>etype = ''MODIFY'', path = ''/w/a'', merged_count = None\<rparr>])"
  by (simp add: merge_events_def)

lemma directory_deletes_of_delete:
  "directory_deletes_of pending = [] \<Longrightarrow> directory_deletes_of (AList.delete k pending) = []"
  by (induction pending) (auto simp: directory_deletes_of_def split: if_splits)

lemma is_filtered_by_parent_delete_eq:
  assumes "dd = [] \<Longrightarrow> directory_deletes_of pending = []"
  shows "is_filtered_by_parent_delete pending p m (Some dd) = (suppressed dd p m, dd)"
  using assms
  by (cases "dd = []")
     (auto simp: is_filtered_by_parent_delete_def suppressed_def covered_by_def
        strict_ancestor_def Let_def list_ex_iff)

lemma merge_events_Nil: "merge_events [] = None"
  by (simp add: merge_events_def sorted_reverse_def)

lemma merge_events_Some: "events \<noteq> [] \<Longrightarrow> \<exists>m. merge_events events = Some m"
  using merge_events_first_max by blast

lemma flush_loop_output:
  assumes "dd = [] \<Longrightarrow> directory_deletes_of (pending_events q) = []"
  shows "\<exists>q'. flush_loop items dd q = Some q' \<and>
           output_queue q' = output_queue q @ concat (map (published dd) items)"
  using assms
proof (induction items arbitrary: q)
  case Nil
  then show ?case by simp
next
  case (Cons g items)
  obtain p es where g: "g = (p, es)" by (cases g)
  show ?case
  proof (cases "es = []")
    case True
    with Cons show ?thesis by (simp add: g published_def merge_events_Nil)
  next
    case False
    from merge_events_Some[OF False] obtain m where m: "merge_events es = Some m" by blast
    let ?q1 = "q\<lparr>events_merged := merge_events_stat es (events_merged q)\<rparr>"
    have r: "is_filtered_by_parent_delete (pending_events ?q1) p m (Some dd)
               = (suppressed dd p m, dd)"
      using Cons.prems by (intro is_filtered_by_parent_delete_eq) simp
    let ?q2 = "if suppressed dd p m
               then ?q1\<lparr>events_filtered := events_filtered ?q1 + 1\<rparr>
               else ?q1\<lparr>output_queue := output_queue ?q1 @ [m],
                        events_output := events_output ?q1 + 1\<rparr>"
    let ?q3 = "?q2\<lparr>pending_events := AList.delete p (pending_events ?q2)\<rparr>"
    have step: "flush_loop (g # items) dd q = flush_loop items dd ?q3"
      using False m r by (simp add: g Let_def)
    have inv: "dd = [] \<Longrightarrow> directory_deletes_of (pending_events ?q3) = []"
      using Cons.prems by (auto intro: directory_deletes_of_delete)
    from Cons.IH[OF inv] obtain q' where q': "flush_loop items dd ?q3 = Some q'"
      "output_queue q' = output_queue ?q3 @ concat (map (published dd) items)" by blast
    have "output_queue ?q3 = output_queue q @ published dd g"
      by (simp add: g published_def m)
    with q' step show ?thesis by simp
  qed
qed

text \<open>
  The output of a flush, as the code computes it: to the FIFO are appended, in the order of
  the pending groups, the merged events that \<open>published\<close> lets through.
\<close>

lemma flush_output:
  "\<exists>q'. flush q = Some q' \<and>
      output_queue q' =
        output_queue q @
        concat (map (published (directory_deletes_of (pending_events q))) (pending_events q))"
proof (cases "pending_events q = []")
  case True
  then show ?thesis by (simp add: flush_def)
next
  case False
  have "\<exists>q'. flush_loop (pending_events q) (directory_deletes_of (pending_events q)) q = Some q' \<and>
           output_queue q' = output_queue q @
             concat (map (published (directory_deletes_of (pending_events q))) (pending_events q))"
    by (rule flush_loop_output) simp
  with False show ?thesis by (simp add: flush_def)
qed

text \<open>
  The flush does what the specification words (suppression under a strict ancestor only)
  whenever every group of a path that holds a \<^verbatim>\<open>DELETE_FOLDER\<close> merges to
  \<^verbatim>\<open>DELETE_FOLDER\<close>: the two readings part only on a path where a \<^verbatim>\<open>DELETE_FILE\<close>
  arrived before the \<^verbatim>\<open>DELETE_FOLDER\<close>.
\<close>

lemma published_as_specified:
  assumes "\<And>m. fst g \<in> set D \<Longrightarrow> merge_events (snd g) = Some m \<Longrightarrow> etype m = ''DELETE_FOLDER''"
  shows "published D g = spec_published D g"
proof (cases "merge_events (snd g)")
  case None
  then show ?thesis by (simp add: published_def spec_published_def)
next
  case (Some m)
  have "suppressed D (fst g) m = spec_suppressed D (fst g) m"
    using assms[OF _ Some]
    by (auto simp: suppressed_def spec_suppressed_def list_ex_iff)
  with Some show ?thesis by (simp add: published_def spec_published_def)
qed

lemma flush_output_as_specified:
  assumes "\<And>g m. g \<in> set (pending_events q) \<Longrightarrow>
             fst g \<in> set (directory_deletes_of (pending_events q)) \<Longrightarrow>
             merge_events (snd g) = Some m \<Longrightarrow> etype m = ''DELETE_FOLDER''"
  shows "\<exists>q'. flush q = Some q' \<and>
      output_queue q' =
        output_queue q @
        concat (map (spec_published (directory_deletes_of (pending_events q)))
                  (pending_events q))"
proof -
  have "map (published (directory_deletes_of (pending_events q))) (pending_events q)
          = map (spec_published (directory_deletes_of (pending_events q))) (pending_events q)"
    using assms by (intro map_cong refl published_as_specified) blast
  with flush_output[of q] show ?thesis by simp
qed

lemma flush_output_example:
  "\<exists>q'. flush \<lparr>pending_events =
                [(''/w/dir'', [\<lparr>etype = ''DELETE_FOLDER'', path = ''/w/dir'', merged_count = None\<rparr>]),
                 (''/w/dir/x'', [\<lparr>etype = ''CREATE_FILE'', path = ''/w/dir/x'', merged_count = None\<rparr>]),
                 (''/w/y'', [\<lparr>etype = ''MODIFY'', path = ''/w/y'', merged_count = None\<rparr>])],
              output_queue = [], events_merged = 0, events_output = 0, events_filtered = 0\<rparr>
          = Some q' \<and>
        output_queue q' =
          [\<lparr>etype = ''DELETE_FOLDER'', path = ''/w/dir'', merged_count = None\<rparr>,
           \<lparr>etype = ''MODIFY'', path = ''/w/y'', merged_count = None\<rparr>]"
  using flush_output [of "\<lparr>pending_events =
                [(''/w/dir'', [\<lparr>etype = ''DELETE_FOLDER'', path = ''/w/dir'', merged_count = None\<rparr>]),
                 (''/w/dir/x'', [\<lparr>etype = ''CREATE_FILE'', path = ''/w/dir/x'', merged_count = None\<rparr>]),
                 (''/w/y'', [\<lparr>etype = ''MODIFY'', path = ''/w/y'', merged_count = None\<rparr>])],
              output_queue = [], events_merged = 0, events_output = 0, events_filtered = 0\<rparr>"]
  by (simp add: directory_deletes_of_def published_def merge_events_def suppressed_def
        strict_ancestor_def)

text \<open>
  Claim C1 at the input where the code leaves it. In one window the path \<^verbatim>\<open>/w/d\<close> is
  removed as a file, created as a directory and removed again: its pending events are
  \<^verbatim>\<open>DELETE_FILE\<close>, \<^verbatim>\<open>CREATE_FOLDER\<close>, \<^verbatim>\<open>DELETE_FOLDER\<close>. The merge keeps the earlier
  \<^verbatim>\<open>DELETE_FILE\<close>; the only path with a \<^verbatim>\<open>DELETE_FOLDER\<close> is \<^verbatim>\<open>/w/d\<close> itself, which is
  not a strict ancestor of \<^verbatim>\<open>/w/d\<close>; and the flush publishes nothing, where the claim has
  the merged event of such a path published whatever kind the merge selects.
\<close>

theorem flush_drops_own_delete_folder_path:
  "map_option output_queue
     (flush \<lparr>pending_events =
               [(''/w/d'', [\<lparr>etype = ''DELETE_FILE'', path = ''/w/d'', merged_count = None\<rparr>,
                            \<lparr>etype = ''CREATE_FOLDER'', path = ''/w/d'', merged_count = None\<rparr>,
                            \<lparr>etype = ''DELETE_FOLDER'', path = ''/w/d'', merged_count = None\<rparr>])],
             output_queue = [], events_merged = 0, events_output = 0, events_filtered = 0\<rparr>)
     = Some [] \<and>
   merge_events [\<lparr>etype = ''DELETE_FILE'', path = ''/w/d'', merged_count = None\<rparr>,
                 \<lparr>etype = ''CREATE_FOLDER'', path = ''/w/d'', merged_count = None\<rparr>,
                 \<lparr>etype = ''DELETE_FOLDER'', path = ''/w/d'', merged_count = None\<rparr>]
     = Some \<lparr>etype = ''DELETE_FILE'', path = ''/w/d'', merged_count = Some 3\<rparr> \<and>
   directory_deletes_of
     [(''/w/d'', [\<lparr>etype = ''DELETE_FILE'', path = ''/w/d'', merged_count = None\<rparr>,
                  \<lparr>etype = ''CREATE_FOLDER'', path = ''/w/d'', merged_count = None\<rparr>,
                  \<lparr>etype = ''DELETE_FOLDER'', path = ''/w/d'', merged_count = None\<rparr>])]
     = [''/w/d''] \<and>
   \<not> strict_ancestor ''/w/d'' ''/w/d''"
proof -
  have m: "merge_events [\<lparr>etype = ''DELETE_FILE'', path = ''/w/d'', merged_count = None\<rparr>,
                 \<lparr>etype = ''CREATE_FOLDER'', path = ''/w/d'', merged_count = None\<rparr>,
                 \<lparr>etype = ''DELETE_FOLDER'', path = ''/w/d'', merged_count = None\<rparr>]
     = Some \<lparr>etype = ''DELETE_FILE'', path = ''/w/d'', merged_count = Some 3\<rparr>"
    by (simp add: merge_events_def sorted_reverse_def priority_def priority_order_def)
  show ?thesis
    by (simp add: flush_def m directory_deletes_of_def strict_ancestor_def
          is_filtered_by_parent_delete_def covered_by_def Let_def)
qed

lemma time_diff_commute: "time_diff a b = time_diff b a"
  by (simp add: time_diff_def abs_minus_commute split: option.splits)

lemma files_identical_commute: "files_identical self a b = files_identical self b a"
  unfolding files_identical_def time_diff_commute[of a b] by auto

text \<open>
  Claim C9. Swapping the local and the remote argument of \<^verbatim>\<open>detect_conflict\<close> mirrors the
  result: no conflict stays no conflict, \<^verbatim>\<open>LOCAL_DELETED_REMOTE_MODIFIED\<close> and
  \<^verbatim>\<open>REMOTE_DELETED_LOCAL_MODIFIED\<close> change places, \<^verbatim>\<open>BOTH_MODIFIED\<close> and
  \<^verbatim>\<open>BOTH_CREATED\<close> are unchanged, and the two metadata values recorded in the conflict
  change places with the arguments.
\<close>

theorem detect_conflict_symmetric:
  "map_option conflict_type (detect_conflict self remote local base)
     = map_option (\<lambda>c. mirror (conflict_type c)) (detect_conflict self local remote base) \<and>
   map_option local_meta (detect_conflict self remote local base)
     = map_option remote_meta (detect_conflict self local remote base) \<and>
   map_option remote_meta (detect_conflict self remote local base)
     = map_option local_meta (detect_conflict self local remote base)"
  unfolding detect_conflict_def files_identical_commute[of self remote local]
  by simp

theorem detect_conflict_symmetric_witness:
  "map_option conflict_type
     (detect_conflict \<lparr>time_tolerance = 2, enable_content_hash = True\<rparr>
        \<lparr>meta_path = ''p'', exists = True, mtime = Some 120, size = Some 7, content_hash = None\<rparr>
        \<lparr>meta_path = ''p'', exists = False, mtime = None, size = None, content_hash = None\<rparr>
        (Some \<lparr>meta_path = ''p'', exists = True, mtime = Some 50, size = Some 3,
               content_hash = None\<rparr>))
     = Some REMOTE_DELETED_LOCAL_MODIFIED \<and>
   map_option conflict_type
     (detect_conflict \<lparr>time_tolerance = 2, enable_content_hash = True\<rparr>
        \<lparr>meta_path = ''p'', exists = False, mtime = None, size = None, content_hash = None\<rparr>
        \<lparr>meta_path = ''p'', exists = True, mtime = Some 120, size = Some 7, content_hash = None\<rparr>
        (Some \<lparr>meta_path = ''p'', exists = True, mtime = Some 50, size = Some 3,
               content_hash = None\<rparr>))
     = Some LOCAL_DELETED_REMOTE_MODIFIED"
proof -
  have a: "detect_conflict \<lparr>time_tolerance = 2, enable_content_hash = True\<rparr>
        \<lparr>meta_path = ''p'', exists = False, mtime = None, size = None, content_hash = None\<rparr>
        \<lparr>meta_path = ''p'', exists = True, mtime = Some 120, size = Some 7, content_hash = None\<rparr>
        (Some \<lparr>meta_path = ''p'', exists = True, mtime = Some 50, size = Some 3,
               content_hash = None\<rparr>)
     = Some \<lparr>conflict_type = LOCAL_DELETED_REMOTE_MODIFIED,
          local_meta = \<lparr>meta_path = ''p'', exists = False, mtime = None, size = None,
                         content_hash = None\<rparr>,
          remote_meta = \<lparr>meta_path = ''p'', exists = True, mtime = Some 120, size = Some 7,
                          content_hash = None\<rparr>,
          base_meta = Some \<lparr>meta_path = ''p'', exists = True, mtime = Some 50, size = Some 3,
                             content_hash = None\<rparr>,
          details = ''Local deleted but remote modified''\<rparr>"
    by (simp add: detect_conflict_def base_exists_def)
  show ?thesis
    using detect_conflict_symmetric
      [of "\<lparr>time_tolerance = 2, enable_content_hash = True\<rparr>"
          "\<lparr>meta_path = ''p'', exists = True, mtime = Some 120, size = Some 7, content_hash = None\<rparr>"
          "\<lparr>meta_path = ''p'', exists = False, mtime = None, size = None, content_hash = None\<rparr>"
          "Some \<lparr>meta_path = ''p'', exists = True, mtime = Some 50, size = Some 3,
               content_hash = None\<rparr>"]
    by (simp add: a)
qed

text \<open>
  Claim C7 at the input where the code leaves it. Content hashing is enabled, neither file
  carries a hash (as for any file of 10 MiB or more), the sizes are equal and the
  modification times are 100 seconds apart: \<^verbatim>\<open>_files_identical\<close> answers true, where the
  claim, with no hash to compare, asks for modification times within the tolerance of 2.
\<close>

theorem files_identical_skips_mtime_when_hash_missing:
  "files_identical \<lparr>time_tolerance = 2, enable_content_hash = True\<rparr>
     \<lparr>meta_path = ''/w/big.iso'', exists = True, mtime = Some 100, size = Some 20971520,
      content_hash = None\<rparr>
     \<lparr>meta_path = ''/w/big.iso'', exists = True, mtime = Some 200, size = Some 20971520,
      content_hash = None\<rparr> \<and>
   \<not> spec_identical \<lparr>time_tolerance = 2, enable_content_hash = True\<rparr>
     \<lparr>meta_path = ''/w/big.iso'', exists = True, mtime = Some 100, size = Some 20971520,
      content_hash = None\<rparr>
     \<lparr>meta_path = ''/w/big.iso'', exists = True, mtime = Some 200, size = Some 20971520,
      content_hash = None\<rparr>"
  by (simp add: files_identical_def spec_identical_def truthy_num_def truthy_str_def
        time_diff_def)

lemma files_identical_existing:
  assumes "exists meta1" "exists meta2"
  shows "files_identical self meta1 meta2 \<longleftrightarrow>
           size meta1 = size meta2 \<and>
           (if enable_content_hash self
            then (if truthy_str (content_hash meta1) \<and> truthy_str (content_hash meta2)
                  then content_hash meta1 = content_hash meta2 else True)
            else (if truthy_num (mtime meta1) \<and> truthy_num (mtime meta2)
                  then time_diff meta1 meta2 \<le> of_int (time_tolerance self) else True))"
  using assms by (auto simp: files_identical_def)

lemma files_identical_exists_differ:
  "\<not> exists meta1 = exists meta2 \<Longrightarrow> \<not> files_identical self meta1 meta2"
  by (simp add: files_identical_def)

text \<open>
  Claim C8, as the code has it. Under \<^verbatim>\<open>KEEP_NEWER\<close> with both sides existing: when both
  modification times are known (neither \<^verbatim>\<open>None\<close> nor 0) the resolver keeps the local
  side if its time is strictly larger and the remote side otherwise (ties included), and
  records the backup of the other side when backup is enabled and the copy succeeded; it
  falls back to the local side exactly when at least one of the two times is unknown.
\<close>

theorem resolve_keep_newer_both_exist:
  assumes "exists (local_meta conflict)" and "exists (remote_meta conflict)"
  shows "action_taken (resolve_keep_newer self conflict) =
           (if truthy_num (mtime (local_meta conflict)) \<and> truthy_num (mtime (remote_meta conflict))
            then (if the (mtime (local_meta conflict)) > the (mtime (remote_meta conflict))
                  then ''Use local (newer)'' else ''Use remote (newer)'')
            else ''Use local (default)'') \<and>
         backup_paths (resolve_keep_newer self conflict) =
           (if truthy_num (mtime (local_meta conflict)) \<and> truthy_num (mtime (remote_meta conflict))
               \<and> enable_backup self
            then (if the (mtime (local_meta conflict)) > the (mtime (remote_meta conflict))
                  then backup_dict ''remote''
                         (copy_backup self (meta_path (remote_meta conflict)) ''remote'')
                  else backup_dict ''local''
                         (copy_backup self (meta_path (local_meta conflict)) ''local''))
            else []) \<and>
         (action_taken (resolve_keep_newer self conflict) = ''Use local (default)'' \<longleftrightarrow>
            \<not> truthy_num (mtime (local_meta conflict)) \<or> \<not> truthy_num (mtime (remote_meta conflict)))"
  using assms
  by (simp add: resolve_keep_newer_def Let_def backup_file_def backup_dict_def)


theorem resolve_keep_newer_both_exist_witness:
  "action_taken
     (resolve_keep_newer
        \<lparr>default_strategy = KEEP_NEWER, backup_dir = ''/var/sersync/conflicts'',
         enable_backup = True,
         copy_backup = (\<lambda>p side. Some (''/var/sersync/conflicts/p_'' @ side @ ''_ts''))\<rparr>
        \<lparr>conflict_type = BOTH_MODIFIED,
         local_meta = \<lparr>meta_path = ''/w/p'', exists = True, mtime = Some 100, size = Some 3,
                        content_hash = Some ''aa''\<rparr>,
         remote_meta = \<lparr>meta_path = ''/w/p'', exists = True, mtime = Some 120, size = Some 4,
                         content_hash = Some ''bb''\<rparr>,
         base_meta = None, details = ''Both sides modified the file''\<rparr>)
     = ''Use remote (newer)'' \<and>
   backup_paths
     (resolve_keep_newer
        \<lparr>default_strategy = KEEP_NEWER, backup_dir = ''/var/sersync/conflicts'',
         enable_backup = True,
         copy_backup = (\<lambda>p side. Some (''/var/sersync/conflicts/p_'' @ side @ ''_ts''))\<rparr>
        \<lparr>conflict_type = BOTH_MODIFIED,
         local_meta = \<lparr>meta_path = ''/w/p'', exists = True, mtime = Some 100, size = Some 3,
                        content_hash = Some ''aa''\<rparr>,
         remote_meta = \<lparr>meta_path = ''/w/p'', exists = True, mtime = Some 120, size = Some 4,
                         content_hash = Some ''bb''\<rparr>,
         base_meta = None, details = ''Both sides modified the file''\<rparr>)
     = [(''local'', ''/var/sersync/conflicts/p_local_ts'')]"
  using resolve_keep_newer_both_exist
    [of "\<lparr>conflict_type = BOTH_MODIFIED,
         local_meta = \<lparr>meta_path = ''/w/p'', exists = True, mtime = Some 100, size = Some 3,
                        content_hash = Some ''aa''\<rparr>,
         remote_meta = \<lparr>meta_path = ''/w/p'', exists = True, mtime = Some 120, size = Some 4,
                         content_hash = Some ''bb''\<rparr>,
         base_meta = None, details = ''Both sides modified the file''\<rparr>"
        "\<lparr>default_strategy = KEEP_NEWER, backup_dir = ''/var/sersync/conflicts'',
         enable_backup = True,
         copy_backup = (\<lambda>p side. Some (''/var/sersync/conflicts/p_'' @ side @ ''_ts''))\<rparr>"]
  by (simp add: truthy_num_def backup_dict_def)

text \<open>
  The claim as it is written fails where only one modification time is unknown: both sides
  exist, the local time is 100, the remote time is missing, and the resolver falls back to
  the local side although the two times are not both unknown.
\<close>

theorem resolve_keep_newer_one_mtime_unknown:
  "action_taken
     (resolve_keep_newer
        \<lparr>default_strategy = KEEP_NEWER, backup_dir = ''/var/sersync/conflicts'',
         enable_backup = True, copy_backup = (\<lambda>p side. None)\<rparr>
        \<lparr>conflict_type = BOTH_MODIFIED,
         local_meta = \<lparr>meta_path = ''/w/p'', exists = True, mtime = Some 100, size = Some 3,
                        content_hash = None\<rparr>,
         remote_meta = \<lparr>meta_path = ''/w/p'', exists = True, mtime = None, size = Some 4,
                         content_hash = None\<rparr>,
         base_meta = None, details = ''Both sides modified the file''\<rparr>)
     = ''Use local (default)'' \<and>
   mtime \<lparr>meta_path = ''/w/p'', exists = True, mtime = Some 100, size = Some 3,
          content_hash = None\<rparr> = Some 100"
  by (simp add: resolve_keep_newer_def truthy_num_def)

lemma validate_config_offending:
  assumes "(key, Some p) \<in> set cfg" and "p \<noteq> []" and "is_path_inside_watch self p"
  shows "\<exists>k q. validate_config self cfg = Some (ValueError k q)"
  using assms
proof (induction cfg)
  case Nil
  then show ?case by simp
next
  case (Cons a cfg)
  obtain k v where a: "a = (k, v)" by (cases a)
  show ?case
  proof (cases "truthy_str v \<and> is_path_inside_watch self (the v)")
    case True
    then show ?thesis by (simp add: a)
  next
    case False
    with Cons.prems have "(key, Some p) \<in> set cfg"
      by (auto simp: a truthy_str_def)
    from Cons.IH[OF this Cons.prems(2,3)] False show ?thesis by (simp add: a)
  qed
qed

text \<open>
  Claim C6, as the code has it. Construction of the metadata paths fails with a
  configuration error whenever some non-empty override resolves to a path of which the
  resolved watched root is a prefix, that is, whenever the override resolves to the watched root or
  to a path inside it (the test is \<^verbatim>\<open>str(path_resolved).startswith(str(self.watch_path))\<close>).
\<close>

theorem generate_safe_paths_rejects_inside_watch:
  assumes "(key, Some override) \<in> set cfg" and "override \<noteq> []"
    and "resolve self override = Some r" and "prefix (watch_path self) r"
  shows "\<exists>k p. generate_safe_paths self (Some cfg) = Inl (ValueError k p)"
proof -
  have "is_path_inside_watch self override" using assms(3,4) by (simp add: is_path_inside_watch_def)
  from validate_config_offending[OF assms(1,2) this]
  obtain k p where "validate_config self cfg = Some (ValueError k p)" by blast
  moreover have "cfg \<noteq> []" using assms(1) by auto
  ultimately show ?thesis by (simp add: generate_safe_paths_def)
qed

theorem generate_safe_paths_rejects_inside_watch_witness:
  "generate_safe_paths
     \<lparr>watch_path = ''/w'', remote_name = ''data'', resolve = Some,
      md5_hex = (\<lambda>s. ''0123456789abcdef0123456789abcdef'')\<rparr>
     (Some [(''metadata_dir'', Some ''/w/.meta''), (''conflict_backup_dir'', None),
            (''lock_file'', None)])
     = Inl (ValueError ''metadata_dir'' ''/w/.meta'')"
proof -
  let ?self = "\<lparr>watch_path = ''/w'', remote_name = ''data'', resolve = Some,
      md5_hex = (\<lambda>s. ''0123456789abcdef0123456789abcdef'')\<rparr>"
  let ?cfg = "[(''metadata_dir'', Some ''/w/.meta''), (''conflict_backup_dir'', None),
            (''lock_file'', None)]"
  have 1: "(''metadata_dir'', Some ''/w/.meta'') \<in> set ?cfg" by simp
  have 2: "''/w/.meta'' \<noteq> []" by simp
  have 3: "resolve ?self ''/w/.meta'' = Some ''/w/.meta''" by simp
  have 4: "prefix (watch_path ?self) ''/w/.meta''" by simp
  from generate_safe_paths_rejects_inside_watch[OF 1 2 3 4]
  obtain k p where e: "generate_safe_paths ?self (Some ?cfg) = Inl (ValueError k p)" by blast
  then show ?thesis
    by (auto simp: generate_safe_paths_def truthy_str_def is_path_inside_watch_def)
qed

text \<open>
  The claim as it is written fails for an override that resolves to an ancestor of the
  watched root: with the watched root \<^verbatim>\<open>/w\<close> and the override \<^verbatim>\<open>/\<close>, the resolved
  override is a prefix of the resolved root, and the paths are accepted.
\<close>

theorem generate_safe_paths_accepts_ancestor:
  "prefix ''/'' ''/w'' \<and>
   generate_safe_paths
     \<lparr>watch_path = ''/w'', remote_name = ''data'', resolve = Some,
      md5_hex = (\<lambda>s. ''0123456789abcdef0123456789abcdef'')\<rparr>
     (Some [(''metadata_dir'', Some ''/''), (''conflict_backup_dir'', Some ''/var/c''),
            (''lock_file'', Some ''/var/l'')])
     = Inr \<lparr>state_dir = Some ''/'', conflict_dir = Some ''/var/c'',
            lock_file = Some ''/var/l''\<rparr>"
  by (simp add: generate_safe_paths_def truthy_str_def is_path_inside_watch_def dict_get_def)

lemma build_rsync_cmd_shape:
  "\<exists>front. build_rsync_cmd env self source rem et =
      front @ [build_source env source et,
               build_dest env self (build_source env source et) rem] \<and>
      (is_delete et \<longrightarrow> ''--delete'' \<in> set front)"
  unfolding build_rsync_cmd_def
  by (intro exI[of _ "[''rsync'']
     @ split_ws (common_params (config self))
     @ (if is_delete et then [''--delete''] else [])
     @ (if auth_enabled (config self) \<and> truthy_str (auth_passwordfile (config self))
        then [''--password-file='' @ the (auth_passwordfile (config self))] else [])
     @ (if timeout_enabled (config self)
        then [''--timeout='' @ str_int (timeout (config self))] else [])
     @ (if custom_port_enabled (config self)
        then [''--port='' @ str_int (custom_port (config self))] else [])
     @ (if ssh_enabled (config self) then [''-e'', ''ssh''] else [])"]) simp

lemma rsync_to_remote_spawned:
  assumes "\<not> (is_delete et \<and> \<not> path_exists env source
               \<and> \<not> path_exists env (path_parent env source))"
  shows "snd (rsync_to_remote env self source rem et)
           = [build_rsync_cmd env self source rem et] \<and>
         rs_success (fst (rsync_to_remote env self source rem et))
           = outcome_success et (run_process env (build_rsync_cmd env self source rem et))"
  using assms
  by (auto simp: rsync_to_remote_def outcome_success_def Let_def split: proc_result.splits)

text \<open>
  Claim C3. For a delete event whose source path no longer exists: if the parent directory
  exists, the command line built for the remote carries \<^verbatim>\<open>--delete\<close> among its options
  and ends with the parent directory followed by \<^verbatim>\<open>/\<close> as the source and the destination
  computed from that source, and this is the one command the dispatcher spawns; if the
  parent directory does not exist either, the dispatcher returns success with return code 0
  and spawns nothing.
\<close>

theorem delete_of_missing_source:
  assumes "is_delete et" and "\<not> path_exists env source"
  shows "if path_exists env (path_parent env source)
         then (\<exists>front. build_rsync_cmd env self source rem et =
                  front @ [path_parent env source @ ''/'',
                           build_dest env self (path_parent env source @ ''/'') rem] \<and>
                  ''--delete'' \<in> set front) \<and>
              snd (rsync_to_remote env self source rem et)
                = [build_rsync_cmd env self source rem et]
         else rsync_to_remote env self source rem et =
                (\<lparr>rs_success = True, rs_returncode = Some 0,
                  rs_output = Some ''Source already deleted, sync skipped'',
                  rs_error = ''''\<rparr>, [])"
proof (cases "path_exists env (path_parent env source)")
  case True
  have src: "build_source env source et = path_parent env source @ ''/''"
    using assms True by (simp add: build_source_def)
  from build_rsync_cmd_shape[of env self source rem et] assms(1)
  have "\<exists>front. build_rsync_cmd env self source rem et =
                  front @ [path_parent env source @ ''/'',
                           build_dest env self (path_parent env source @ ''/'') rem] \<and>
                  ''--delete'' \<in> set front"
    by (simp add: src)
  moreover have "snd (rsync_to_remote env self source rem et)
                = [build_rsync_cmd env self source rem et]"
    using rsync_to_remote_spawned[of et env source self rem] True by simp
  ultimately show ?thesis using True by simp
next
  case False
  then show ?thesis using assms by (simp add: rsync_to_remote_def)
qed

lemma sync_file_loop_results:
  "fst (sync_file_loop env self fp et rems ledger)
     = map (\<lambda>rem. \<lparr>r_remote = ip rem @ ''::'' @ name rem,
                     r_success = rs_success (fst (rsync_to_remote env self fp rem et)),
                     r_output = (case rs_output (fst (rsync_to_remote env self fp rem et))
                                 of Some out \<Rightarrow> out | None \<Rightarrow> ''''),
                     r_error = rs_error (fst (rsync_to_remote env self fp rem et))\<rparr>) rems"
  by (induction rems arbitrary: ledger) (simp_all add: Let_def)

text \<open>
  Claim C4. An invocation that is spawned succeeds if and only if the process exits with
  code 0, or, for a delete event, exits with code 23 and \<^verbatim>\<open>No such file or directory\<close>
  in its captured stderr; every other exit code, a timeout and an exception are failures.
  (The one outcome without a process is the skipped delete of a source whose parent is gone
  too, a success.) The \<^verbatim>\<open>all_success\<close> of \<^verbatim>\<open>sync_file\<close> is the conjunction of the success
  flags of the invocations for the remotes.
\<close>

theorem rsync_outcome_policy:
  "(if is_delete et \<and> \<not> path_exists env source \<and> \<not> path_exists env (path_parent env source)
    then snd (rsync_to_remote env self source rem et) = [] \<and>
         rs_success (fst (rsync_to_remote env self source rem et))
    else snd (rsync_to_remote env self source rem et)
           = [build_rsync_cmd env self source rem et] \<and>
         rs_success (fst (rsync_to_remote env self source rem et))
           = (case run_process env (build_rsync_cmd env self source rem et) of
                Exited returncode out err \<Rightarrow>
                  returncode = 0 \<or>
                  (is_delete et \<and> returncode = 23
                     \<and> is_substring ''No such file or directory'' err)
              | TimedOut \<Rightarrow> False
              | Raised msg \<Rightarrow> False)) \<and>
   all_success (fst (sync_file env self source et st))
     = list_all (\<lambda>rem. rs_success (fst (rsync_to_remote env self source rem et)))
         (remotes self) \<and>
   results (fst (sync_file env self source et st))
     = map (\<lambda>rem. \<lparr>r_remote = ip rem @ ''::'' @ name rem,
                     r_success = rs_success (fst (rsync_to_remote env self source rem et)),
                     r_output = (case rs_output (fst (rsync_to_remote env self source rem et))
                                 of Some out \<Rightarrow> out | None \<Rightarrow> ''''),
                     r_error = rs_error (fst (rsync_to_remote env self source rem et))\<rparr>)
         (remotes self)"
proof -
  have spawn: "\<not> (is_delete et \<and> \<not> path_exists env source
               \<and> \<not> path_exists env (path_parent env source)) \<Longrightarrow>
     rs_success (fst (rsync_to_remote env self source rem et))
           = (case run_process env (build_rsync_cmd env self source rem et) of
                Exited returncode out err \<Rightarrow>
                  returncode = 0 \<or>
                  (is_delete et \<and> returncode = 23
                     \<and> is_substring ''No such file or directory'' err)
              | TimedOut \<Rightarrow> False
              | Raised msg \<Rightarrow> False)"
    using rsync_to_remote_spawned[of et env source self rem]
    by (simp add: outcome_success_def)
  have skip: "is_delete et \<and> \<not> path_exists env source
               \<and> \<not> path_exists env (path_parent env source) \<Longrightarrow>
     snd (rsync_to_remote env self source rem et) = [] \<and>
         rs_success (fst (rsync_to_remote env self source rem et))"
    by (simp add: rsync_to_remote_def)
  have res: "results (fst (sync_file env self source et st))
     = map (\<lambda>rem. \<lparr>r_remote = ip rem @ ''::'' @ name rem,
                     r_success = rs_success (fst (rsync_to_remote env self source rem et)),
                     r_output = (case rs_output (fst (rsync_to_remote env self source rem et))
                                 of Some out \<Rightarrow> out | None \<Rightarrow> ''''),
                     r_error = rs_error (fst (rsync_to_remote env self source rem et))\<rparr>)
         (remotes self)"
    by (simp add: sync_file_def Let_def sync_file_loop_results)
  have "all_success (fst (sync_file env self source et st))
          = list_all r_success (results (fst (sync_file env self source et st)))"
    by (simp add: sync_file_def Let_def)
  also have "\<dots> = list_all (\<lambda>rem. rs_success (fst (rsync_to_remote env self source rem et)))
         (remotes self)"
    unfolding res by (simp add: list_all_iff)
  finally have all: "all_success (fst (sync_file env self source et st))
     = list_all (\<lambda>rem. rs_success (fst (rsync_to_remote env self source rem et)))
         (remotes self)" .
  show ?thesis
    using spawn skip rsync_to_remote_spawned[of et env source self rem] res all
    by (simp only: split: if_split) blast
qed


theorem delete_of_missing_source_witness:
  "snd (rsync_to_remote
          \<lparr>path_exists = (\<lambda>p. p = ''/w''), path_parent = (\<lambda>p. ''/w''),
           path_name = (\<lambda>p. ''''),
           path_relative_to = (\<lambda>p b. if p = ''/w/'' then Some ''.'' else None),
           run_process = (\<lambda>c. Exited 0 [] []), now = ''2024-01-01 00:00:00''\<rparr>
          \<lparr>config = \<lparr>common_params = ''-artuz'', auth_enabled = False, auth_users = None,
                     auth_passwordfile = None, custom_port_enabled = False,
                     custom_port = 874, timeout_enabled = False, timeout = 100,
                     ssh_enabled = False\<rparr>,
           remotes = [\<lparr>ip = ''10.0.0.2'', name = ''data''\<rparr>], engine_watch_path = ''/w''\<rparr>
          ''/w/dir'' \<lparr>ip = ''10.0.0.2'', name = ''data''\<rparr> ''DELETE_FOLDER'')
     = [[''rsync'', ''-artuz'', ''--delete'', ''/w/'', ''10.0.0.2::data/.'']] \<and>
   rsync_to_remote
          \<lparr>path_exists = (\<lambda>p. False), path_parent = (\<lambda>p. ''/w/gone''),
           path_name = (\<lambda>p. ''''), path_relative_to = (\<lambda>p b. None),
           run_process = (\<lambda>c. Exited 1 [] []), now = ''2024-01-01 00:00:00''\<rparr>
          \<lparr>config = \<lparr>common_params = ''-artuz'', auth_enabled = False, auth_users = None,
                     auth_passwordfile = None, custom_port_enabled = False,
                     custom_port = 874, timeout_enabled = False, timeout = 100,
                     ssh_enabled = False\<rparr>,
           remotes = [\<lparr>ip = ''10.0.0.2'', name = ''data''\<rparr>], engine_watch_path = ''/w''\<rparr>
          ''/w/gone/x'' \<lparr>ip = ''10.0.0.2'', name = ''data''\<rparr> ''DELETE_FILE''
     = (\<lparr>rs_success = True, rs_returncode = Some 0,
         rs_output = Some ''Source already deleted, sync skipped'', rs_error = ''''\<rparr>, [])"
  using delete_of_missing_source
    [of "''DELETE_FOLDER''"
        "\<lparr>path_exists = (\<lambda>p. p = ''/w''), path_parent = (\<lambda>p. ''/w''),
           path_name = (\<lambda>p. ''''),
           path_relative_to = (\<lambda>p b. if p = ''/w/'' then Some ''.'' else None),
           run_process = (\<lambda>c. Exited 0 [] []), now = ''2024-01-01 00:00:00''\<rparr>"
        "''/w/dir''"
        "\<lparr>config = \<lparr>common_params = ''-artuz'', auth_enabled = False, auth_users = None,
                     auth_passwordfile = None, custom_port_enabled = False,
                     custom_port = 874, timeout_enabled = False, timeout = 100,
                     ssh_enabled = False\<rparr>,
           remotes = [\<lparr>ip = ''10.0.0.2'', name = ''data''\<rparr>], engine_watch_path = ''/w''\<rparr>"
        "\<lparr>ip = ''10.0.0.2'', name = ''data''\<rparr>"]
    delete_of_missing_source
    [of "''DELETE_FILE''"
        "\<lparr>path_exists = (\<lambda>p. False), path_parent = (\<lambda>p. ''/w/gone''),
           path_name = (\<lambda>p. ''''), path_relative_to = (\<lambda>p b. None),
           run_process = (\<lambda>c. Exited 1 [] []), now = ''2024-01-01 00:00:00''\<rparr>"
        "''/w/gone/x''"
        "\<lparr>config = \<lparr>common_params = ''-artuz'', auth_enabled = False, auth_users = None,
                     auth_passwordfile = None, custom_port_enabled = False,
                     custom_port = 874, timeout_enabled = False, timeout = 100,
                     ssh_enabled = False\<rparr>,
           remotes = [\<lparr>ip = ''10.0.0.2'', name = ''data''\<rparr>], engine_watch_path = ''/w''\<rparr>"
        "\<lparr>ip = ''10.0.0.2'', name = ''data''\<rparr>"]
  by (simp add: is_delete_def build_rsync_cmd_def build_source_def build_dest_def
        relative_path_def split_ws_def is_space_def truthy_str_def)

theorem rsync_outcome_policy_witness:
  "rs_success (fst (rsync_to_remote
          \<lparr>path_exists = (\<lambda>p. p = ''/w''), path_parent = (\<lambda>p. ''/w''),
           path_name = (\<lambda>p. ''''),
           path_relative_to = (\<lambda>p b. if p = ''/w/'' then Some ''.'' else None),
           run_process = (\<lambda>c. Exited 23 [] ''rsync: No such file or directory (2)''),
           now = ''2024-01-01 00:00:00''\<rparr>
          \<lparr>config = \<lparr>common_params = ''-artuz'', auth_enabled = False, auth_users = None,
                     auth_passwordfile = None, custom_port_enabled = False,
                     custom_port = 874, timeout_enabled = False, timeout = 100,
                     ssh_enabled = False\<rparr>,
           remotes = [\<lparr>ip = ''10.0.0.2'', name = ''data''\<rparr>], engine_watch_path = ''/w''\<rparr>
          ''/w/a'' \<lparr>ip = ''10.0.0.2'', name = ''data''\<rparr> ''DELETE_FILE'')) \<and>
   all_success (fst (sync_file
          \<lparr>path_exists = (\<lambda>p. p = ''/w''), path_parent = (\<lambda>p. ''/w''),
           path_name = (\<lambda>p. ''''),
           path_relative_to = (\<lambda>p b. if p = ''/w/'' then Some ''.'' else None),
           run_process = (\<lambda>c. Exited 23 [] ''rsync: No such file or directory (2)''),
           now = ''2024-01-01 00:00:00''\<rparr>
          \<lparr>config = \<lparr>common_params = ''-artuz'', auth_enabled = False, auth_users = None,
                     auth_passwordfile = None, custom_port_enabled = False,
                     custom_port = 874, timeout_enabled = False, timeout = 100,
                     ssh_enabled = False\<rparr>,
           remotes = [\<lparr>ip = ''10.0.0.2'', name = ''data''\<rparr>], engine_watch_path = ''/w''\<rparr>
          ''/w/a'' ''DELETE_FILE''
          \<lparr>fail_log_file = None, total_syncs = 0, success_syncs = 0, failed_syncs = 0\<rparr>))"
  using rsync_outcome_policy
    [of "''DELETE_FILE''"
        "\<lparr>path_exists = (\<lambda>p. p = ''/w''), path_parent = (\<lambda>p. ''/w''),
           path_name = (\<lambda>p. ''''),
           path_relative_to = (\<lambda>p b. if p = ''/w/'' then Some ''.'' else None),
           run_process = (\<lambda>c. Exited 23 [] ''rsync: No such file or directory (2)''),
           now = ''2024-01-01 00:00:00''\<rparr>"
        "''/w/a''"
        "\<lparr>config = \<lparr>common_params = ''-artuz'', auth_enabled = False, auth_users = None,
                     auth_passwordfile = None, custom_port_enabled = False,
                     custom_port = 874, timeout_enabled = False, timeout = 100,
                     ssh_enabled = False\<rparr>,
           remotes = [\<lparr>ip = ''10.0.0.2'', name = ''data''\<rparr>], engine_watch_path = ''/w''\<rparr>"
        "\<lparr>ip = ''10.0.0.2'', name = ''data''\<rparr>"
        "\<lparr>fail_log_file = None, total_syncs = 0, success_syncs = 0, failed_syncs = 0\<rparr>"]
  by (simp add: is_delete_def)

lemma first_line_append:
  "CHR ''\<newline>'' \<in> set a \<Longrightarrow> first_line (a @ b) = first_line a"
  by (simp add: first_line_def takeWhile_append1)

lemma first_line_no_nl:
  "CHR ''\<newline>'' \<notin> set a \<Longrightarrow> first_line (a @ CHR ''\<newline>'' # b) = a"
  by (induction a) (auto simp: first_line_def)

lemma first_line_no_nl_append:
  "CHR ''\<newline>'' \<notin> set a \<Longrightarrow> first_line (a @ b) = a @ first_line b"
  by (induction a) (auto simp: first_line_def)

lemma split_nl_not_Nil: "split_nl s \<noteq> []"
  by (induction s) (auto split: list.splits)

lemma hd_split_nl: "hd (split_nl s) = first_line s"
  by (induction s) (auto simp: first_line_def split_nl_not_Nil split: list.splits)

lemma first_line_has_no_nl: "CHR ''\<newline>'' \<notin> set (first_line s)"
  unfolding first_line_def by (induction s) auto

lemma prefix_first_line:
  assumes "prefix a s" and "CHR ''\<newline>'' \<notin> set a"
  shows "prefix a (first_line s)"
proof -
  from assms(1) obtain t where "s = a @ t" by (auto simp: prefix_def)
  with assms(2) show ?thesis by (simp add: first_line_no_nl_append)
qed

lemma insert_header_lines:
  "split_nl content = x # xs \<Longrightarrow>
   \<exists>y ys. list_insert 5 l5 (list_insert 4 l4 (list_insert 3 l3 (list_insert 2 l2
             (split_nl content)))) = x # y # ys"
  by (cases xs) (auto simp: list_insert_def)

lemma join_first:
  "CHR ''\<newline>'' \<notin> set x \<Longrightarrow> first_line (join ''\<newline>'' (x # y # ys)) = x"
  by (simp add: first_line_no_nl)

lemma ensure_header_inserted:
  assumes "prefix ''#!/bin/bash'' content" and "\<not> is_substring ''RETRY_COUNT=0'' content"
  shows "\<exists>rest. ensure_header (Some content) = first_line content @ CHR ''\<newline>'' # rest"
proof -
  obtain x xs where sp: "split_nl content = x # xs"
    using split_nl_not_Nil[of content] by (cases "split_nl content") auto
  have x: "x = first_line content" using hd_split_nl[of content] sp by simp
  from insert_header_lines[OF sp] obtain y ys where
    ins: "list_insert 5 '''' (list_insert 4 ''FAILED_COUNT=0'' (list_insert 3 ''RETRY_COUNT=0''
            (list_insert 2 ''# FailLog retry script - generated by sersync''
               (split_nl content)))) = x # y # ys" by blast
  have "ensure_header (Some content) = join ''\<newline>'' (x # y # ys)"
    using assms by (simp add: ensure_header_def ins)
  thus ?thesis by (simp add: x)
qed

lemma is_substring_iff: "is_substring sub s \<longleftrightarrow> (\<exists>a b. s = a @ sub @ b)"
proof (induction s)
  case Nil
  then show ?case by auto
next
  case (Cons c cs)
  show ?case
  proof
    assume "is_substring sub (c # cs)"
    then consider "prefix sub (c # cs)" | "is_substring sub cs" by auto
    then show "\<exists>a b. c # cs = a @ sub @ b"
    proof cases
      case 1
      then obtain b where "c # cs = sub @ b" by (auto simp: prefix_def)
      then show ?thesis by (intro exI[of _ "[]"] exI[of _ b]) simp
    next
      case 2
      with Cons.IH obtain a b where "cs = a @ sub @ b" by blast
      then show ?thesis by (intro exI[of _ "c # a"] exI[of _ b]) simp
    qed
  next
    assume "\<exists>a b. c # cs = a @ sub @ b"
    then obtain a b where ab: "c # cs = a @ sub @ b" by blast
    show "is_substring sub (c # cs)"
    proof (cases a)
      case Nil
      with ab have "prefix sub (c # cs)" by (simp add: prefix_def)
      then show ?thesis by simp
    next
      case (Cons a1 as)
      with ab have "cs = as @ sub @ b" by simp
      with Cons.IH have "is_substring sub cs" by blast
      then show ?thesis by simp
    qed
  qed
qed


lemma log_failure_split:
  "\<exists>entry. log_failure env self fp rem et ledger
      = ensure_header ledger @ ''# Failed at '' @ entry"
  by (simp add: log_failure_def Let_def)

lemma shebang_no_counter: "\<not> is_substring ''RETRY_COUNT=0'' ''#!/bin/bash''"
  by simp

lemma ledger_header_first_line:
  "prefix ''#!/bin/bash'' (ledger_header @ t) \<and> first_line (ledger_header @ t) = ''#!/bin/bash''"
  by (simp add: ledger_header_def first_line_def)

lemma log_failure_shebang:
  "prefix ''#!/bin/bash'' (log_failure env self fp rem et ledger) \<and>
   (first_line (log_failure env self fp rem et ledger) = ''#!/bin/bash'' \<longleftrightarrow>
      (case ledger of
         None \<Rightarrow> True
       | Some content \<Rightarrow>
           \<not> prefix ''#!/bin/bash'' content \<or> first_line content = ''#!/bin/bash''))"
proof -
  obtain entry where lf: "log_failure env self fp rem et ledger
      = ensure_header ledger @ ''# Failed at '' @ entry"
    using log_failure_split by blast
  show ?thesis
  proof (cases ledger)
    case None
    then show ?thesis
      using ledger_header_first_line[of "''# Failed at '' @ entry"] lf
      by (simp add: ensure_header_def)
  next
    case (Some content)
    show ?thesis
    proof (cases "prefix ''#!/bin/bash'' content")
      case False
      then show ?thesis
        using ledger_header_first_line[of "content @ ''# Failed at '' @ entry"] lf
        by (simp add: Some ensure_header_def)
    next
      case True
      show ?thesis
      proof (cases "is_substring ''RETRY_COUNT=0'' content")
        case False
        from ensure_header_inserted[OF True False] obtain rest where
          eh: "ensure_header (Some content) = first_line content @ CHR ''\<newline>'' # rest"
          by blast
        have p: "prefix ''#!/bin/bash'' (first_line content)"
          using True by (intro prefix_first_line) simp_all
        have "prefix ''#!/bin/bash''
                (first_line content @ CHR ''\<newline>'' # rest @ ''# Failed at '' @ entry)"
          using p prefix_prefix by blast
        moreover have "first_line (first_line content @ CHR ''\<newline>''
                  # (rest @ ''# Failed at '' @ entry)) = first_line content"
          by (rule first_line_no_nl) (rule first_line_has_no_nl)
        ultimately show ?thesis using True lf by (simp add: Some eh)
      next
        case sub: True
        have eh: "ensure_header (Some content) = content"
          using True sub by (simp add: ensure_header_def)
        have pre: "prefix ''#!/bin/bash'' (content @ ''# Failed at '' @ entry)"
          using True prefix_prefix by blast
        have ne: "content \<noteq> ''#!/bin/bash''"
          using sub shebang_no_counter by auto
        have "first_line (content @ ''# Failed at '' @ entry) = ''#!/bin/bash''
                \<longleftrightarrow> first_line content = ''#!/bin/bash''"
        proof (cases "CHR ''\<newline>'' \<in> set content")
          case True
          then show ?thesis by (simp add: first_line_append)
        next
          case False
          from \<open>prefix ''#!/bin/bash'' content\<close> obtain t where t: "content = ''#!/bin/bash'' @ t"
            by (auto simp: prefix_def)
          have t_ne: "t \<noteq> []" using ne t by auto
          have fl: "first_line content = content"
            using False by (auto simp: first_line_def)
          have "first_line (content @ ''# Failed at '' @ entry)
                  = content @ first_line (''# Failed at '' @ entry)"
            using False by (rule first_line_no_nl_append)
          hence "first_line (content @ ''# Failed at '' @ entry)
                  = ''#!/bin/bash'' @ (t @ first_line (''# Failed at '' @ entry))"
            by (simp add: t)
          hence "first_line (content @ ''# Failed at '' @ entry) \<noteq> ''#!/bin/bash''"
            using t_ne by (metis append_self_conv append_is_Nil_conv)
          with fl ne show ?thesis by simp
        qed
        with pre show ?thesis using True lf by (simp add: Some eh)
      qed
    qed
  qed
qed

lemma generate_script_first_line:
  "first_line (generate_script_with_commands commands) = ''#!/bin/bash'' \<and>
   prefix ''#!/bin/bash'' (generate_script_with_commands commands)"
  by (simp add: generate_script_with_commands_def first_line_def)

lemma clear_script_first_line:
  "first_line clear_script = ''#!/bin/bash'' \<and> prefix ''#!/bin/bash'' clear_script"
  by (simp add: clear_script_def first_line_def)

lemma rstrip_id: "s \<noteq> [] \<Longrightarrow> \<not> is_space (last s) \<Longrightarrow> rstrip s = s"
  by (cases s rule: rev_cases) (auto simp: rstrip_def)

lemma strip_id:
  "s \<noteq> [] \<Longrightarrow> \<not> is_space (hd s) \<Longrightarrow> \<not> is_space (last s) \<Longrightarrow> strip s = s"
  by (cases s) (auto simp: strip_def rstrip_id)


lemma log_failure_first_line_kept:
  assumes "prefix ''#!/bin/bash'' content" and "\<not> is_substring ''RETRY_COUNT=0'' content"
  shows "first_line (log_failure env self fp rem et (Some content)) = first_line content"
proof -
  obtain entry where lf: "log_failure env self fp rem et (Some content)
      = ensure_header (Some content) @ ''# Failed at '' @ entry"
    using log_failure_split by blast
  from ensure_header_inserted[OF assms] obtain rest where
    eh: "ensure_header (Some content) = first_line content @ CHR ''\<newline>'' # rest"
    by blast
  have "first_line (first_line content @ CHR ''\<newline>''
            # (rest @ ''# Failed at '' @ entry)) = first_line content"
    by (rule first_line_no_nl) (rule first_line_has_no_nl)
  thus ?thesis by (simp add: lf eh)
qed

lemma rstrip_append:
  "rstrip (a @ b) = (if \<forall>x\<in>set b. is_space x then rstrip a else a @ rstrip b)"
  by (simp add: rstrip_def dropWhile_append)

lemma first_line_decompose:
  "s = first_line s \<or> (\<exists>r. s = first_line s @ CHR ''\<newline>'' # r)"
proof -
  let ?P = "\<lambda>c. \<not> c = CHR ''\<newline>''"
  have s: "s = takeWhile ?P s @ dropWhile ?P s" by simp
  show ?thesis
  proof (cases "dropWhile ?P s")
    case Nil
    with s show ?thesis by (simp add: first_line_def)
  next
    case (Cons c r)
    have "\<not> ?P (hd (dropWhile ?P s))"
      by (rule hd_dropWhile) (simp add: Cons)
    hence "c = CHR ''\<newline>''" by (simp add: Cons)
    with s Cons show ?thesis by (metis first_line_def)
  qed
qed

lemma rstrip_keeps_first_line:
  assumes "first_line s = l" and "l \<noteq> []" and "\<not> is_space (last l)"
  shows "first_line (rstrip s @ CHR ''\<newline>'' # t) = l"
proof -
  have nl: "CHR ''\<newline>'' \<notin> set l" using assms(1) first_line_has_no_nl by blast
  from first_line_decompose[of s] consider "s = l" | r where "s = l @ CHR ''\<newline>'' # r"
    using assms(1) by auto
  then show ?thesis
  proof cases
    case 1
    then show ?thesis using assms(2,3) nl by (simp add: rstrip_id first_line_no_nl)
  next
    case 2
    show ?thesis
    proof (cases "\<forall>x\<in>set (CHR ''\<newline>'' # r). is_space x")
      case True
      hence "rstrip (l @ CHR ''\<newline>'' # r) = rstrip l"
        by (subst rstrip_append) simp
      hence "rstrip s = l"
        unfolding 2 using assms(2,3) by (simp add: rstrip_id)
      then show ?thesis using nl by (simp add: first_line_no_nl)
    next
      case False
      hence r: "\<not> (\<forall>x\<in>set r. is_space x)" by (simp add: is_space_def)
      have "rstrip (l @ CHR ''\<newline>'' # r) = l @ rstrip ([CHR ''\<newline>''] @ r)"
        using False by (subst rstrip_append) auto
      hence "rstrip s = l @ rstrip ([CHR ''\<newline>''] @ r)"
        unfolding 2 .
      also have "rstrip ([CHR ''\<newline>''] @ r) = [CHR ''\<newline>''] @ rstrip r"
        using r by (subst rstrip_append) auto
      finally have "rstrip s @ CHR ''\<newline>'' # t
                      = l @ CHR ''\<newline>'' # (rstrip r @ CHR ''\<newline>'' # t)" by simp
      then show ?thesis using first_line_no_nl[OF nl] by simp
    qed
  qed
qed

lemma result_check_starts: "\<exists>t. result_check = CHR ''\<newline>'' # t"
  by (simp add: result_check_def)

lemma add_result_check_first_line:
  assumes "first_line content = ''#!/bin/bash''"
  shows "first_line (add_result_check_to_script content) = ''#!/bin/bash''"
proof -
  obtain t where t: "result_check = CHR ''\<newline>'' # t" using result_check_starts by blast
  have "first_line (rstrip content @ CHR ''\<newline>'' # t) = ''#!/bin/bash''"
    using assms by (rule rstrip_keeps_first_line) (simp_all add: is_space_def)
  thus ?thesis using assms by (simp add: add_result_check_to_script_def t)
qed

lemma perform_incremental_cleanup_first_line:
  assumes "first_line content = ''#!/bin/bash''"
  shows "first_line (perform_incremental_cleanup xenv content) = ''#!/bin/bash''"
  using assms generate_script_first_line clear_script_first_line
  by (simp add: perform_incremental_cleanup_def Let_def)

lemma check_and_execute_first_line:
  assumes "first_line content = ''#!/bin/bash''"
    and "check_and_execute xenv (Some content) = Some content2"
  shows "first_line content2 = ''#!/bin/bash''"
  using assms clear_script_first_line
    perform_incremental_cleanup_first_line[OF add_result_check_first_line[OF assms(1)], of xenv]
  by (auto simp: check_and_execute_def Let_def split: if_splits)

lemma log_failure_first_line:
  assumes "case ledger of None \<Rightarrow> True
           | Some content \<Rightarrow> \<not> prefix ''#!/bin/bash'' content \<or> first_line content = ''#!/bin/bash''"
  shows "first_line (log_failure env self fp rem et ledger) = ''#!/bin/bash''"
  using assms log_failure_shebang[of env self fp rem et ledger] by blast

text \<open>
  Claim C10. Every ledger that an operation of the program leaves has \<^verbatim>\<open>#!/bin/bash\<close> as
  its first line: the dispatcher's append (on a missing file, where it creates the file
  with the header, on a file without the interpreter line, where it puts the header in
  front, and on a ledger written before, where it inserts the counter initialisation when
  that is absent), the footer the executor adds before a run, the executor's clearing and
  its regeneration, and so the file after any tick.
\<close>

theorem written_ledger_first_line:
  assumes "written_ledger content"
  shows "first_line content = ''#!/bin/bash''"
  using assms
proof (induction rule: written_ledger.induct)
  case (created env self fp rem et)
  show ?case by (rule log_failure_first_line) simp
next
  case (reinserted content env self fp rem et)
  then show ?case by (intro log_failure_first_line) simp
next
  case (appended content env self fp rem et)
  then show ?case by (intro log_failure_first_line) simp
next
  case (footer content)
  then show ?case by (intro add_result_check_first_line)
next
  case (ticked content xenv content2)
  then show ?case using check_and_execute_first_line by blast
next
  case cleared
  show ?case using clear_script_first_line by simp
next
  case (regenerated commands)
  show ?case using generate_script_first_line by simp
qed

theorem written_ledger_first_line_witness:
  "written_ledger
     (log_failure
        \<lparr>path_exists = (\<lambda>p. True), path_parent = (\<lambda>p. ''/w''), path_name = (\<lambda>p. ''a''),
         path_relative_to = (\<lambda>p b. Some ''a''),
         run_process = (\<lambda>c. Exited 12 [] []), now = ''2024-01-01 00:00:00''\<rparr>
        \<lparr>config = \<lparr>common_params = ''-artuz'', auth_enabled = False, auth_users = None,
                   auth_passwordfile = None, custom_port_enabled = False,
                   custom_port = 874, timeout_enabled = False, timeout = 100,
                   ssh_enabled = False\<rparr>,
         remotes = [\<lparr>ip = ''10.0.0.2'', name = ''data''\<rparr>], engine_watch_path = ''/w''\<rparr>
        ''/w/a'' \<lparr>ip = ''10.0.0.2'', name = ''data''\<rparr> ''CLOSE_WRITE''
        (Some clear_script)) \<and>
   first_line
     (log_failure
        \<lparr>path_exists = (\<lambda>p. True), path_parent = (\<lambda>p. ''/w''), path_name = (\<lambda>p. ''a''),
         path_relative_to = (\<lambda>p b. Some ''a''),
         run_process = (\<lambda>c. Exited 12 [] []), now = ''2024-01-01 00:00:00''\<rparr>
        \<lparr>config = \<lparr>common_params = ''-artuz'', auth_enabled = False, auth_users = None,
                   auth_passwordfile = None, custom_port_enabled = False,
                   custom_port = 874, timeout_enabled = False, timeout = 100,
                   ssh_enabled = False\<rparr>,
         remotes = [\<lparr>ip = ''10.0.0.2'', name = ''data''\<rparr>], engine_watch_path = ''/w''\<rparr>
        ''/w/a'' \<lparr>ip = ''10.0.0.2'', name = ''data''\<rparr> ''CLOSE_WRITE''
        (Some clear_script))
     = ''#!/bin/bash''"
proof -
  let ?l = "log_failure
        \<lparr>path_exists = (\<lambda>p. True), path_parent = (\<lambda>p. ''/w''), path_name = (\<lambda>p. ''a''),
         path_relative_to = (\<lambda>p b. Some ''a''),
         run_process = (\<lambda>c. Exited 12 [] []), now = ''2024-01-01 00:00:00''\<rparr>
        \<lparr>config = \<lparr>common_params = ''-artuz'', auth_enabled = False, auth_users = None,
                   auth_passwordfile = None, custom_port_enabled = False,
                   custom_port = 874, timeout_enabled = False, timeout = 100,
                   ssh_enabled = False\<rparr>,
         remotes = [\<lparr>ip = ''10.0.0.2'', name = ''data''\<rparr>], engine_watch_path = ''/w''\<rparr>
        ''/w/a'' \<lparr>ip = ''10.0.0.2'', name = ''data''\<rparr> ''CLOSE_WRITE''
        (Some clear_script)"
  have w: "written_ledger ?l"
    by (intro written_ledger.appended written_ledger.cleared)
  from written_ledger_first_line[OF w] w show ?thesis by (intro conjI)
qed

text \<open>
  The statement is about the ledgers the program writes. A file put there by hand that
  begins with \<^verbatim>\<open>#!/bin/bash\<close> and goes on in the same line passes the test
  \<^verbatim>\<open>content.startswith('#!/bin/bash')\<close>, and the append keeps its first line.
\<close>

lemma foreign_first_line_kept:
  "first_line
     (log_failure
        \<lparr>path_exists = (\<lambda>p. True), path_parent = (\<lambda>p. ''/w''), path_name = (\<lambda>p. ''a''),
         path_relative_to = (\<lambda>p b. Some ''a''),
         run_process = (\<lambda>c. Exited 12 [] []), now = ''2024-01-01 00:00:00''\<rparr>
        \<lparr>config = \<lparr>common_params = ''-artuz'', auth_enabled = False, auth_users = None,
                   auth_passwordfile = None, custom_port_enabled = False,
                   custom_port = 874, timeout_enabled = False, timeout = 100,
                   ssh_enabled = False\<rparr>,
         remotes = [\<lparr>ip = ''10.0.0.2'', name = ''data''\<rparr>], engine_watch_path = ''/w''\<rparr>
        ''/w/a'' \<lparr>ip = ''10.0.0.2'', name = ''data''\<rparr> ''CLOSE_WRITE''
        (Some ''#!/bin/bash -x\<newline>''))
     = ''#!/bin/bash -x'' \<and>
   ''#!/bin/bash -x'' \<noteq> ''#!/bin/bash''"
proof -
  have 1: "prefix ''#!/bin/bash'' ''#!/bin/bash -x\<newline>''" by simp
  have 2: "\<not> is_substring ''RETRY_COUNT=0'' ''#!/bin/bash -x\<newline>''" by simp
  show ?thesis
    using log_failure_first_line_kept[OF 1 2] by (simp add: first_line_def)
qed

text \<open>
  The parser on the output of a run whose commands are all plain: the commands it reports
  are exactly those whose retry failed. Commands with a \<^verbatim>\<open>SUCCESS\<close> line are dropped,
  and when every command fails the set of commands is the one recorded.
\<close>

lemma is_substring_Nil [simp]: "is_substring [] s"
  by (cases s) auto

lemma replace_no_occurrence:
  "\<not> is_substring old s \<Longrightarrow> replace_with_empty old s = s"
proof (induction s)
  case Nil
  then show ?case by (subst replace_with_empty.simps) simp
next
  case (Cons c cs)
  then have "\<not> prefix old (c # cs)" "\<not> is_substring old cs" by auto
  moreover from this have "old \<noteq> []" by auto
  ultimately show ?case using Cons.IH by (subst replace_with_empty.simps) simp
qed

lemma replace_leading:
  "old \<noteq> [] \<Longrightarrow> replace_with_empty old (old @ s) = replace_with_empty old s"
  by (subst replace_with_empty.simps) simp

lemma parse_line_retrying:
  assumes "plain_command c"
  shows "parse_line (fc, cur) (''Retrying: '' @ c) = (fc, Some c)"
proof -
  have ne: "c \<noteq> []" and sp: "\<not> is_space (last c)" and occ: "\<not> is_substring ''Retrying: '' c"
    using assms by (auto simp: plain_command_def)
  have "strip (''Retrying: '' @ c) = ''Retrying: '' @ c"
    using ne sp by (intro strip_id) (simp_all add: is_space_def)
  moreover have "replace_with_empty ''Retrying: '' (''Retrying: '' @ c) = c"
    using replace_leading[of "''Retrying: ''" c] replace_no_occurrence[OF occ] by simp
  ultimately show ?thesis by (simp add: parse_line_def Let_def)
qed

lemma parse_line_failed:
  assumes "plain_command c"
  shows "parse_line (fc, Some c) (''FAILED: '' @ c @ '' (exit code: 1)'')
           = ((if c \<in> set (map fst fc) then fc
               else fc @ [(c, ''FAILED: '' @ c @ '' (exit code: 1)'')]), None)"
proof -
  have ne: "c \<noteq> []" using assms by (simp add: plain_command_def)
  have "strip (''FAILED: '' @ c @ '' (exit code: 1)'') = ''FAILED: '' @ c @ '' (exit code: 1)''"
    by (intro strip_id) (simp_all add: is_space_def)
  thus ?thesis using ne by (simp add: parse_line_def Let_def truthy_str_def)
qed

lemma parse_line_success:
  assumes "plain_command c"
  shows "parse_line (fc, cur) (''SUCCESS: '' @ c) = (fc, None)"
proof -
  have ne: "c \<noteq> []" and sp: "\<not> is_space (last c)"
    using assms by (auto simp: plain_command_def)
  have "strip (''SUCCESS: '' @ c) = ''SUCCESS: '' @ c"
    using ne sp by (intro strip_id) (simp_all add: is_space_def)
  thus ?thesis by (simp add: parse_line_def Let_def)
qed



lemma foldl_printed_lines:
  assumes "plain_command c"
  shows "foldl parse_line (fc, cur) (printed_lines (c, ok))
           = ((if ok \<or> c \<in> set (map fst fc) then fc
               else fc @ [(c, ''FAILED: '' @ c @ '' (exit code: 1)'')]), None)"
proof (cases ok)
  case True
  have "foldl parse_line (fc, cur) [''Retrying: '' @ c, ''SUCCESS: '' @ c]
          = parse_line (parse_line (fc, cur) (''Retrying: '' @ c)) (''SUCCESS: '' @ c)"
    by (simp only: foldl.simps)
  also have "\<dots> = (fc, None)"
    by (simp only: parse_line_retrying[OF assms] parse_line_success[OF assms])
  finally show ?thesis using True by (simp only: printed_lines_def fst_conv snd_conv if_True simp_thms)
next
  case False
  have "foldl parse_line (fc, cur) [''Retrying: '' @ c, ''FAILED: '' @ c @ '' (exit code: 1)'']
          = parse_line (parse_line (fc, cur) (''Retrying: '' @ c))
              (''FAILED: '' @ c @ '' (exit code: 1)'')"
    by (simp only: foldl.simps)
  also have "\<dots> = ((if c \<in> set (map fst fc) then fc
               else fc @ [(c, ''FAILED: '' @ c @ '' (exit code: 1)'')]), None)"
    by (simp only: parse_line_retrying[OF assms] parse_line_failed[OF assms])
  finally show ?thesis using False
    by (simp only: printed_lines_def fst_conv snd_conv if_False simp_thms)
qed

lemma parse_printed_lines:
  assumes "\<forall>e\<in>set es. plain_command (fst e)"
  shows "set (map fst (fst (foldl parse_line (fc, cur) (concat (map printed_lines es)))))
           = set (map fst fc) \<union> {c. (c, False) \<in> set es}"
  using assms
proof (induction es arbitrary: fc cur)
  case Nil
  then show ?case by simp
next
  case (Cons e es)
  obtain c ok where e: "e = (c, ok)" by (cases e)
  have pc: "plain_command c" using Cons.prems by (simp add: e)
  have rest: "\<forall>e\<in>set es. plain_command (fst e)" using Cons.prems by simp
  let ?fc = "if ok \<or> c \<in> set (map fst fc) then fc
             else fc @ [(c, ''FAILED: '' @ c @ '' (exit code: 1)'')]"
  have step: "foldl parse_line (fc, cur) (concat (map printed_lines (e # es)))
            = foldl parse_line (?fc, None) (concat (map printed_lines es))"
    by (simp only: e list.map concat.simps foldl_append foldl_printed_lines[OF pc])
  have "set (map fst ?fc) = set (map fst fc) \<union> (if ok then {} else {c})"
    by auto
  with Cons.IH[OF rest, of ?fc None] show ?case
    unfolding step by (auto simp: e)
qed


lemma split_nl_line: "CHR ''\<newline>'' \<notin> set a \<Longrightarrow> split_nl a = [a]"
  by (induction a) auto

lemma split_nl_cons_line:
  "CHR ''\<newline>'' \<notin> set a \<Longrightarrow> split_nl (a @ CHR ''\<newline>'' # b) = a # split_nl b"
  by (induction a) auto

lemma split_nl_join:
  "ls \<noteq> [] \<Longrightarrow> \<forall>l\<in>set ls. CHR ''\<newline>'' \<notin> set l \<Longrightarrow> split_nl (join ''\<newline>'' ls) = ls"
proof (induction "''\<newline>''" ls rule: join.induct)
  case 1
  then show ?case by simp
next
  case (2 x)
  then show ?case by (simp add: split_nl_line)
next
  case (3 x y zs)
  then show ?case by (simp add: split_nl_cons_line)
qed

lemma printed_lines_no_nl:
  "CHR ''\<newline>'' \<notin> set (fst e) \<Longrightarrow> \<forall>l\<in>set (printed_lines e). CHR ''\<newline>'' \<notin> set l"
  by (simp add: printed_lines_def)

lemma parse_failed_commands_plain:
  assumes "es \<noteq> []"
    and "\<forall>e\<in>set es. plain_command (fst e) \<and> CHR ''\<newline>'' \<notin> set (fst e)"
  shows "set (map fst (parse_failed_commands_from_output
                         (join ''\<newline>'' (concat (map printed_lines es)))))
           = {c. (c, False) \<in> set es}"
proof -
  have ne: "concat (map printed_lines es) \<noteq> []"
    using assms(1) by (cases es) (simp_all add: printed_lines_def)
  have nl: "\<forall>l\<in>set (concat (map printed_lines es)). CHR ''\<newline>'' \<notin> set l"
    using assms(2) printed_lines_no_nl by fastforce
  have "split_nl (join ''\<newline>'' (concat (map printed_lines es))) = concat (map printed_lines es)"
    using ne nl by (rule split_nl_join)
  moreover have "\<forall>e\<in>set es. plain_command (fst e)" using assms(2) by simp
  from parse_printed_lines[OF this, of "[]" None]
  have "set (map fst (fst (foldl parse_line ([], None) (concat (map printed_lines es)))))
           = {c. (c, False) \<in> set es}"
    by simp
  ultimately show ?thesis by (simp add: parse_failed_commands_from_output_def)
qed

lemma check_and_execute_nothing_to_do:
  "check_and_execute env None = None"
  "\<not> has_rsync_commands content \<Longrightarrow> check_and_execute env (Some content) = Some content"
  by (simp_all add: check_and_execute_def)

lemma check_and_execute_all_succeed:
  assumes "12 < utf8_size content" and "has_rsync_commands content"
    and "execute_script env (add_result_check_to_script content)"
  shows "check_and_execute env (Some content) = Some clear_script"
  using assms by (simp add: check_and_execute_def Let_def)

lemma check_and_execute_second_run_succeeds:
  assumes "12 < utf8_size content" and "has_rsync_commands content"
    and "\<not> execute_script env (add_result_check_to_script content)"
    and "fst (execute_script_with_analysis env (add_result_check_to_script content))"
  shows "check_and_execute env (Some content) = Some clear_script"
  using assms by (simp add: check_and_execute_def perform_incremental_cleanup_def Let_def)

lemma check_and_execute_regenerates:
  assumes "12 < utf8_size content" and "has_rsync_commands content"
    and "\<not> execute_script env (add_result_check_to_script content)"
    and "\<not> fst (execute_script_with_analysis env (add_result_check_to_script content))"
  shows "check_and_execute env (Some content) =
           Some (let failed_commands = parse_failed_commands_from_output
                       (snd (execute_script_with_analysis env
                               (add_result_check_to_script content)))
                 in if failed_commands = [] then add_result_check_to_script content
                    else generate_script_with_commands failed_commands)"
  using assms by (simp add: check_and_execute_def perform_incremental_cleanup_def Let_def)

lemma retry_ledger_commands:
  "rsync_command_lines retry_ledger
     = [''rsync -artuz /w/Retrying: 10.0.0.2::data/Retrying:'']"
  by (simp add: retry_ledger_def retry_env_def retry_engine_def retry_remote_def
       log_failure_def build_rsync_cmd_def build_source_def build_dest_def relative_path_def
       split_ws_def is_space_def truthy_str_def is_delete_def ensure_header_def
       ledger_header_def retry_block_def rsync_command_lines_def strip_def rstrip_def)

lemma length_le_utf8_size: "length s \<le> utf8_size s"
  by (simp add: utf8_size_def)

lemma retry_ledger_runs:
  "has_rsync_commands retry_ledger \<and> 12 < utf8_size retry_ledger"
proof -
  have "has_rsync_commands retry_ledger \<and> 12 < length retry_ledger"
    by (simp add: retry_ledger_def retry_env_def retry_engine_def retry_remote_def
         log_failure_def build_rsync_cmd_def build_source_def build_dest_def relative_path_def
         split_ws_def is_space_def truthy_str_def is_delete_def ensure_header_def
         ledger_header_def retry_block_def has_rsync_commands_def strip_def rstrip_def)
  with length_le_utf8_size[of retry_ledger] show ?thesis
    by (meson less_le_trans)
qed

lemma retry_output_parsed:
  "parse_failed_commands_from_output retry_output =
     [(''rsync -artuz /w/10.0.0.2::data/Retrying:'',
       ''FAILED: rsync -artuz /w/Retrying: 10.0.0.2::data/Retrying: (exit code: 10)'')]"
  by (simp add: retry_output_def parse_failed_commands_from_output_def parse_line_def
        strip_def rstrip_def is_space_def truthy_str_def Let_def replace_with_empty.simps)

lemma regenerated_commands:
  "rsync_command_lines (generate_script_with_commands
     [(''rsync -artuz /w/10.0.0.2::data/Retrying:'',
       ''FAILED: rsync -artuz /w/Retrying: 10.0.0.2::data/Retrying: (exit code: 10)'')])
     = [''rsync -artuz /w/10.0.0.2::data/Retrying:'']"
  by (simp add: generate_script_with_commands_def retry_block_def rsync_command_lines_def
        strip_def rstrip_def is_space_def digit_def str_nat.simps)

text \<open>
  Claim C5 at the input where the code leaves it. The ledger holds the one command
  \<^verbatim>\<open>rsync -artuz /w/Retrying: 10.0.0.2::data/Retrying:\<close>, written by the dispatcher for
  the file \<^verbatim>\<open>/w/Retrying:\<close>. The retry fails again in both runs of the tick. The
  regenerated ledger does not hold the same command: it holds
  \<^verbatim>\<open>rsync -artuz /w/10.0.0.2::data/Retrying:\<close>, because the parser deletes every
  occurrence of \<^verbatim>\<open>Retrying: \<close> from the echoed line, not only the leading one.
\<close>

theorem tick_rewrites_command_with_marker:
  "rsync_command_lines retry_ledger
     = [''rsync -artuz /w/Retrying: 10.0.0.2::data/Retrying:''] \<and>
   map_option rsync_command_lines (check_and_execute retry_exec (Some retry_ledger))
     = Some [''rsync -artuz /w/10.0.0.2::data/Retrying:'']"
proof -
  have run: "\<not> execute_script retry_exec (add_result_check_to_script retry_ledger)"
    "execute_script_with_analysis retry_exec (add_result_check_to_script retry_ledger)
       = (False, retry_output)"
    by (simp_all add: retry_exec_def)
  have "check_and_execute retry_exec (Some retry_ledger) =
          Some (generate_script_with_commands
            [(''rsync -artuz /w/10.0.0.2::data/Retrying:'',
              ''FAILED: rsync -artuz /w/Retrying: 10.0.0.2::data/Retrying: (exit code: 10)'')])"
    using retry_ledger_runs run
    by (simp add: check_and_execute_regenerates retry_output_parsed)
  thus ?thesis
    by (simp add: retry_ledger_commands regenerated_commands)
qed

end
